theory Spec2Isabelle
  imports Main "HOL-Library.Word" "HOL-Library.Sublist"
begin

section \<open>JavaScript strings\<close>

text \<open>
  A JavaScript string is a sequence of UTF-16 code units. Video titles are arbitrary
  Unicode, and the regular expressions of \<^verbatim>\<open>server.js\<close> carry no \<^verbatim>\<open>u\<close> flag, so they
  work on code units: a string is a list of 16-bit words.
\<close>

type_synonym jsstr = "16 word list"

text \<open>An ASCII literal of the source, as code units.\<close>

definition js :: "string \<Rightarrow> jsstr" where
  "js s = map (\<lambda>c. of_nat (of_char c)) s"

text \<open>\<^verbatim>\<open>s.startsWith(p)\<close> and \<^verbatim>\<open>s.includes(sub)\<close> (\<open>includes\<close> is a keyword of Isabelle).\<close>

fun startsWith :: "'a list \<Rightarrow> 'a list \<Rightarrow> bool" where
  "startsWith s [] = True"
| "startsWith [] (p # ps) = False"
| "startsWith (c # cs) (p # ps) = (c = p \<and> startsWith cs ps)"

fun includes_str :: "'a list \<Rightarrow> 'a list \<Rightarrow> bool" where
  "includes_str [] sub = (sub = [])"
| "includes_str (c # cs) sub = (startsWith (c # cs) sub \<or> includes_str cs sub)"

text \<open>
  The class \<^verbatim>\<open>\s\<close> of a regular expression and the characters \<^verbatim>\<open>trim()\<close> strips are
  the same set: WhiteSpace and LineTerminator of ECMAScript (TAB, LF, VT, FF, CR, SP, NBSP,
  U+1680, U+2000..U+200A, LS, PS, U+202F, U+205F, U+3000, U+FEFF).
\<close>

definition is_space :: "16 word \<Rightarrow> bool" where
  "is_space c \<longleftrightarrow>
     c = 0x09 \<or> c = 0x0A \<or> c = 0x0B \<or> c = 0x0C \<or> c = 0x0D \<or> c = 0x20 \<or> c = 0xA0 \<or>
     c = 0x1680 \<or> (0x2000 \<le> c \<and> c \<le> 0x200A) \<or> c = 0x2028 \<or> c = 0x2029 \<or>
     c = 0x202F \<or> c = 0x205F \<or> c = 0x3000 \<or> c = 0xFEFF"

text \<open>\<^verbatim>\<open>s.trim()\<close>.\<close>

definition trim :: "jsstr \<Rightarrow> jsstr" where
  "trim s = rev (dropWhile is_space (rev (dropWhile is_space s)))"

section \<open>Filename Sanitizer\<close>

text \<open>
  \<^verbatim>\<open>filename.replace(/[<>:"/\\|?*]/g, '').replace(/\s+/g, ' ').trim()\<close>

  The character class holds the nine characters
  \<^verbatim>\<open><\<close> (3C), \<^verbatim>\<open>>\<close> (3E), \<^verbatim>\<open>:\<close> (3A), \<^verbatim>\<open>"\<close> (22), \<^verbatim>\<open>/\<close> (2F), \<^verbatim>\<open>\\<close> (5C), \<^verbatim>\<open>|\<close> (7C),
  \<^verbatim>\<open>?\<close> (3F) and \<^verbatim>\<open>*\<close> (2A).
\<close>

definition forbidden :: "16 word \<Rightarrow> bool" where
  "forbidden c \<longleftrightarrow>
     c = 0x3C \<or> c = 0x3E \<or> c = 0x3A \<or> c = 0x22 \<or> c = 0x2F \<or> c = 0x5C \<or> c = 0x7C \<or>
     c = 0x3F \<or> c = 0x2A"

text \<open>\<^verbatim>\<open>.replace(/[<>:"/\\|?*]/g, '')\<close>: every match is deleted.\<close>

definition strip_forbidden :: "jsstr \<Rightarrow> jsstr" where
  "strip_forbidden s = filter (\<lambda>c. \<not> forbidden c) s"

text \<open>
  \<^verbatim>\<open>.replace(/\s+/g, ' ')\<close>: scanning from the left, each maximal run of whitespace
  (the quantifier is greedy) is replaced by one space.
\<close>

function collapse_ws :: "jsstr \<Rightarrow> jsstr" where
  "collapse_ws [] = []"
| "collapse_ws (c # cs) =
     (if is_space c then 0x20 # collapse_ws (dropWhile is_space cs)
      else c # collapse_ws cs)"
  by pat_completeness auto
termination
  by (relation "measure length") (auto intro: le_imp_less_Suc length_dropWhile_le)

definition sanitizeFilename :: "jsstr \<Rightarrow> jsstr" where
  "sanitizeFilename filename = trim (collapse_ws (strip_forbidden filename))"


section \<open>Errors, the world outside the process, and what is observed\<close>

text \<open>
  Everything the code throws is an \<^verbatim>\<open>Error\<close> object. Its \<^verbatim>\<open>message\<close> is what the code
  tests and rewrites; its \<^verbatim>\<open>stack\<close> is only handed to the logger and is left out.
\<close>

datatype error = Error (message: jsstr)

text \<open>
  An entry of the \<^verbatim>\<open>downloads\<close> directory with the fields of \<^verbatim>\<open>fs.statSync\<close> that the
  code reads: the modification time in milliseconds and the size in bytes.
  \<open>removable\<close> says whether \<^verbatim>\<open>fs.unlinkSync\<close> on the entry succeeds (it fails on a
  subdirectory or without permission).
\<close>

record file_entry =
  fname :: jsstr
  mtime :: int
  fsize :: nat
  removable :: bool

text \<open>
  The world: the entries of \<^verbatim>\<open>downloads\<close> in the order \<^verbatim>\<open>fs.readdirSync\<close> lists them
  (\<open>None\<close> while the directory does not exist), the clock that \<^verbatim>\<open>Date.now()\<close> reads, and
  the state of everything else (the network, the remote sites, the downloader's caches).
\<close>

record 'x world =
  downloads :: "file_entry list option"
  clock :: int
  outside :: 'x

text \<open>
  The observable actions of a run, in order. A child process is recorded with the place
  in the code that spawned it, its command line, its timeout in milliseconds and the error
  it was rejected with (\<open>None\<close> when it succeeded).
\<close>

datatype call_site = VersionProbe | InfoQuery | StrategyAttempt

datatype provider = YtDlp | Invidious

datatype event =
    Called provider
  | Exec call_site jsstr int "error option"
  | Sleep int
  | Fetch jsstr
  | WriteFile jsstr nat

type_synonym 'x st = "'x world \<times> event list"

text \<open>
  The object \<^verbatim>\<open>JSON.parse\<close> makes of the downloader's \<^verbatim>\<open>--dump-single-json\<close> output:
  it always carries the strings \<^verbatim>\<open>title\<close> and \<^verbatim>\<open>id\<close>; the other fields the code reads may
  be absent.
\<close>

record video_info =
  info_title :: jsstr
  info_id :: jsstr
  info_uploader :: "jsstr option"
  info_channel :: "jsstr option"
  info_duration :: "int option"
  info_view_count :: "int option"
  info_height :: "int option"

text \<open>The answer of an Invidious instance to \<^verbatim>\<open>GET /api/v1/videos/{id}\<close>.\<close>

record format_stream =
  container :: jsstr
  qualityLabel :: "jsstr option"
  stream_url :: jsstr

record invidious_data =
  data_error :: "jsstr option"
  data_title :: jsstr
  data_author :: jsstr
  lengthSeconds :: int
  viewCount :: "int option"
  formatStreams :: "format_stream list option"

text \<open>
  A \<^verbatim>\<open>fetch\<close> response: \<^verbatim>\<open>ok\<close>, \<^verbatim>\<open>status\<close>, and what \<^verbatim>\<open>response.json()\<close> and
  \<^verbatim>\<open>response.arrayBuffer()\<close> resolve to or reject with.
\<close>

record http_response =
  ok :: bool
  status :: int
  json_body :: "error + invidious_data"
  arrayBuffer :: "error + 8 word list"

text \<open>
  What the process cannot decide by itself: the outcome of a child process
  (\<^verbatim>\<open>promisify(exec)\<close>: the command and its timeout give the standard output or a rejection,
  and the child may change the world), \<^verbatim>\<open>JSON.parse\<close> on the metadata (\<open>None\<close> is a falsy
  value such as \<^verbatim>\<open>null\<close>), an HTTP request, and the two library functions
  \<^verbatim>\<open>Number.prototype.toLocaleString\<close> and \<^verbatim>\<open>encodeURIComponent\<close> (which throws on a lone
  surrogate).
\<close>

record 'x env =
  exec :: "jsstr \<Rightarrow> int \<Rightarrow> 'x world \<Rightarrow> (error + jsstr) \<times> 'x world"
  JSON_parse :: "jsstr \<Rightarrow> error + video_info option"
  fetch :: "jsstr \<Rightarrow> 'x world \<Rightarrow> (error + http_response) \<times> 'x world"
  toLocaleString :: "int \<Rightarrow> jsstr"
  encodeURIComponent :: "jsstr \<Rightarrow> error + jsstr"

text \<open>\<^verbatim>\<open>await execAsync(cmd, { timeout })\<close> at a given place of the code.\<close>

definition execAsync ::
  "'x env \<Rightarrow> call_site \<Rightarrow> jsstr \<Rightarrow> int \<Rightarrow> 'x st \<Rightarrow> (error + jsstr) \<times> 'x st" where
  "execAsync env site cmd timeout s =
     (case exec env cmd timeout (fst s) of
        (r, w') \<Rightarrow>
          (r, (w', snd s @ [Exec site cmd timeout (case r of Inl e \<Rightarrow> Some e | Inr out \<Rightarrow> None)])))"

text \<open>\<^verbatim>\<open>await new Promise(resolve => setTimeout(resolve, ms))\<close>.\<close>

definition sleep :: "int \<Rightarrow> 'x st \<Rightarrow> 'x st" where
  "sleep ms s = (fst s, snd s @ [Sleep ms])"

text \<open>\<^verbatim>\<open>await fetch(url, ...)\<close>.\<close>

definition fetchAsync :: "'x env \<Rightarrow> jsstr \<Rightarrow> 'x st \<Rightarrow> (error + http_response) \<times> 'x st" where
  "fetchAsync env u s =
     (case fetch env u (fst s) of (r, w') \<Rightarrow> (r, (w', snd s @ [Fetch u])))"

subsection \<open>The file system calls\<close>

definition enoent :: error where
  "enoent = Error (js ''ENOENT: no such file or directory'')"

text \<open>\<^verbatim>\<open>if (!fs.existsSync(downloadsDir)) fs.mkdirSync(downloadsDir, { recursive: true })\<close>.\<close>

definition ensure_downloads :: "'x world \<Rightarrow> 'x world" where
  "ensure_downloads w = (case downloads w of None \<Rightarrow> w\<lparr>downloads := Some []\<rparr> | Some es \<Rightarrow> w)"

text \<open>
  \<^verbatim>\<open>fs.writeFileSync(path.join(downloadsDir, name), bytes)\<close>: the file of that name is
  created, or its content replaced, and is last modified now.
\<close>

fun put_file :: "jsstr \<Rightarrow> int \<Rightarrow> nat \<Rightarrow> file_entry list \<Rightarrow> file_entry list" where
  "put_file n t k [] = [\<lparr>fname = n, mtime = t, fsize = k, removable = True\<rparr>]"
| "put_file n t k (e # es) =
     (if fname e = n then e\<lparr>mtime := t, fsize := k\<rparr> # es else e # put_file n t k es)"

definition writeFileSync :: "jsstr \<Rightarrow> 8 word list \<Rightarrow> 'x st \<Rightarrow> error + 'x st" where
  "writeFileSync n bytes s =
     (case downloads (fst s) of
        None \<Rightarrow> Inl enoent
      | Some es \<Rightarrow>
          Inr ((fst s)\<lparr>downloads := Some (put_file n (clock (fst s)) (length bytes) es)\<rparr>,
               snd s @ [WriteFile n (length bytes)]))"

subsection \<open>Numbers and strings\<close>

text \<open>\<^verbatim>\<open>String(n)\<close> for an integer: decimal digits, with a minus sign when negative.\<close>

function digits :: "int \<Rightarrow> jsstr" where
  "digits n =
     (if n < 10 then [word_of_int (48 + n)]
      else digits (n div 10) @ [word_of_int (48 + n mod 10)])"
  by pat_completeness auto
termination
  by (relation "measure nat") auto

definition show_int :: "int \<Rightarrow> jsstr" where
  "show_int i = (if i < 0 then 0x2D # digits (- i) else digits i)"

text \<open>\<^verbatim>\<open>s.padStart(2, '0')\<close>.\<close>

definition padStart2 :: "jsstr \<Rightarrow> jsstr" where
  "padStart2 s = replicate (2 - length s) 0x30 @ s"

text \<open>
  \<^verbatim>\<open>parseInt(s)\<close> with no radix: leading whitespace is skipped, a sign is read, a prefix
  \<^verbatim>\<open>0x\<close> or \<^verbatim>\<open>0X\<close> selects base 16, and the longest run of digits is the value; with no
  digit the result is NaN, here \<open>None\<close>.
\<close>

definition digit_of :: "16 word \<Rightarrow> int option" where
  "digit_of c =
     (if 0x30 \<le> c \<and> c \<le> 0x39 then Some (uint c - 48)
      else if 0x61 \<le> c \<and> c \<le> 0x66 then Some (uint c - 87)
      else if 0x41 \<le> c \<and> c \<le> 0x46 then Some (uint c - 55)
      else None)"

definition in_radix :: "int \<Rightarrow> 16 word \<Rightarrow> bool" where
  "in_radix r c = (case digit_of c of None \<Rightarrow> False | Some d \<Rightarrow> d < r)"

definition digits_value :: "int \<Rightarrow> jsstr \<Rightarrow> int option" where
  "digits_value r s =
     (case takeWhile (in_radix r) s of
        [] \<Rightarrow> None
      | ds \<Rightarrow>
          Some (foldl (\<lambda>acc c. acc * r + (case digit_of c of None \<Rightarrow> 0 | Some d \<Rightarrow> d)) 0 ds))"

definition parseInt :: "jsstr \<Rightarrow> int option" where
  "parseInt s =
     (let t = dropWhile is_space s;
          neg = (t \<noteq> [] \<and> hd t = 0x2D);
          u = (if t \<noteq> [] \<and> (hd t = 0x2D \<or> hd t = 0x2B) then tl t else t);
          hex = (startsWith u (js ''0x'') \<or> startsWith u (js ''0X''));
          v = (if hex then digits_value 16 (drop 2 u) else digits_value 10 u)
      in map_option (\<lambda>n. if neg then - n else n) v)"

section \<open>The primary path: \<^verbatim>\<open>downloadViaYtDlp\<close>\<close>

text \<open>A value is truthy, for an optional string, when it is present and not empty.\<close>

definition truthy :: "jsstr option \<Rightarrow> bool" where
  "truthy v = (case v of None \<Rightarrow> False | Some s \<Rightarrow> s \<noteq> [])"

subsection \<open>External Downloader Invoker\<close>

definition ytdlpOptions :: "jsstr list" where
  "ytdlpOptions = [js ''yt-dlp'', js ''python3 -m yt_dlp'', js ''/opt/venv/bin/yt-dlp'']"

text \<open>
  \<^verbatim>\<open>for (const cmd of ytdlpOptions) { try { await execAsync(`${cmd} --version`, { timeout: 5000 });
  ytDlpCommand = cmd; break; } catch (e) { continue; } }\<close>
  The result is the value of \<^verbatim>\<open>ytDlpCommand\<close> after the loop (\<open>None\<close>: still undefined).
\<close>

fun probe :: "'x env \<Rightarrow> jsstr list \<Rightarrow> 'x st \<Rightarrow> jsstr option \<times> 'x st" where
  "probe env [] s = (None, s)"
| "probe env (cmd # cmds) s =
     (case execAsync env VersionProbe (cmd @ js '' --version'') 5000 s of
        (Inr out, s') \<Rightarrow> (Some cmd, s')
      | (Inl e, s') \<Rightarrow> probe env cmds s')"

text \<open>
  \<^verbatim>\<open>let ytDlpCommand\<close> is a local variable of the function that handles one request. In
  production it is set by the probe loop, and \<^verbatim>\<open>if (!ytDlpCommand)\<close> throws; otherwise it
  is the fixed path \<^verbatim>\<open>./yt-dlp\<close>.
\<close>

definition detect_ytdlp :: "bool \<Rightarrow> 'x env \<Rightarrow> error \<Rightarrow> 'x st \<Rightarrow> (error + jsstr) \<times> 'x st" where
  "detect_ytdlp isProduction env not_found s =
     (if isProduction then
        (case probe env ytdlpOptions s of
           (ytDlpCommand, s') \<Rightarrow>
             if \<not> truthy ytDlpCommand then (Inl not_found, s')
             else (case ytDlpCommand of None \<Rightarrow> (Inl not_found, s') | Some cmd \<Rightarrow> (Inr cmd, s')))
      else (Inr (js ''./yt-dlp''), s))"

subsection \<open>Video Info Fetcher\<close>

definition infoCommand :: "jsstr \<Rightarrow> jsstr \<Rightarrow> jsstr" where
  \<open>infoCommand ytDlpCommand videoUrl =
     ytDlpCommand @ js '' --dump-single-json --no-warnings "'' @ videoUrl @ js ''"''\<close>

definition fetch_info ::
  "'x env \<Rightarrow> jsstr \<Rightarrow> jsstr \<Rightarrow> error \<Rightarrow> 'x st \<Rightarrow> (error + video_info) \<times> 'x st" where
  "fetch_info env ytDlpCommand videoUrl no_info s =
     (case execAsync env InfoQuery (infoCommand ytDlpCommand videoUrl) 30000 s of
        (Inl e, s') \<Rightarrow> (Inl e, s')
      | (Inr infoOutput, s') \<Rightarrow>
          (case JSON_parse env infoOutput of
             Inl e \<Rightarrow> (Inl e, s')
           | Inr None \<Rightarrow> (Inl no_info, s')
           | Inr (Some info) \<Rightarrow> (Inr info, s')))"

text \<open>\<^verbatim>\<open>sanitizeFilename(info.title) || `video_${info.id}_${Date.now()}`\<close>.\<close>

definition output_title :: "video_info \<Rightarrow> 'x world \<Rightarrow> jsstr" where
  "output_title info w =
     (let t = sanitizeFilename (info_title info)
      in if t \<noteq> [] then t else js ''video_'' @ info_id info @ js ''_'' @ show_int (clock w))"

subsection \<open>Strategy Runner\<close>

definition commonArgs :: jsstr where
  \<open>commonArgs = js ''--user-agent "Mozilla/5.0 (Windows NT 10.0; Win64; x64) AppleWebKit/537.36" --add-header "Accept:text/html,application/xhtml+xml,application/xml;q=0.9,*/*;q=0.8" --no-warnings''\<close>

definition downloadStrategies :: "jsstr \<Rightarrow> jsstr \<Rightarrow> jsstr \<Rightarrow> jsstr list" where
  \<open>downloadStrategies ytDlpCommand outputTemplate videoUrl =
     [ytDlpCommand @ js '' '' @ commonArgs @ js '' --format "best[ext=mp4][height<=1080]/best" --output "''
        @ outputTemplate @ js ''" "'' @ videoUrl @ js ''"'',
      ytDlpCommand @ js '' '' @ commonArgs @ js '' --format "worst[ext=mp4]/worst" --output "''
        @ outputTemplate @ js ''" "'' @ videoUrl @ js ''"'']\<close>

text \<open>
  The loop \<^verbatim>\<open>for (let i = 0; i < downloadStrategies.length; i++)\<close>, from the index \<open>i\<close>
  and the current \<^verbatim>\<open>lastError\<close>; it gives \<^verbatim>\<open>downloadSuccess\<close> and \<^verbatim>\<open>lastError\<close>.
\<close>

function strategy_loop ::
  "'x env \<Rightarrow> jsstr list \<Rightarrow> nat \<Rightarrow> error option \<Rightarrow> 'x st \<Rightarrow> (bool \<times> error option) \<times> 'x st" where
  "strategy_loop env strategies i lastError s =
     (if i < length strategies then
        (case execAsync env StrategyAttempt (strategies ! i) 300000
                (if i > 0 then sleep 2000 s else s) of
           (Inr out, s') \<Rightarrow> ((True, lastError), s')
         | (Inl error, s') \<Rightarrow> strategy_loop env strategies (i + 1) (Some error) s')
      else ((False, lastError), s))"
  by pat_completeness auto
termination
  by (relation "measure (\<lambda>(env, strategies, i, lastError, s). length strategies - i)") auto

definition msg_all_failed :: jsstr where
  "msg_all_failed = js ''Todas as estrat'' @ [0xE9] @ js ''gias falharam''"

text \<open>
  The loop and \<^verbatim>\<open>if (!downloadSuccess) throw lastError || new Error(...)\<close>.
\<close>

definition run_strategies :: "'x env \<Rightarrow> jsstr list \<Rightarrow> 'x st \<Rightarrow> (error + unit) \<times> 'x st" where
  "run_strategies env strategies s =
     (case strategy_loop env strategies 0 None s of
        ((downloadSuccess, lastError), s') \<Rightarrow>
          if \<not> downloadSuccess
          then (Inl (case lastError of Some e \<Rightarrow> e | None \<Rightarrow> Error msg_all_failed), s')
          else (Inr (), s'))"

subsection \<open>File Locator and Verifier\<close>

text \<open>\<^verbatim>\<open>fs.statSync(path.join(downloadsDir, name))\<close> in a directory with the entries \<open>es\<close>.\<close>

definition statSync :: "file_entry list \<Rightarrow> jsstr \<Rightarrow> file_entry option" where
  "statSync es n = find (\<lambda>e. fname e = n) es"

definition mtime_of :: "file_entry list \<Rightarrow> jsstr \<Rightarrow> int" where
  "mtime_of es n = (case statSync es n of None \<Rightarrow> 0 | Some e \<Rightarrow> mtime e)"

text \<open>
  \<^verbatim>\<open>fs.readdirSync(downloadsDir).filter(file => file.startsWith(sanitizedTitle))
  .sort((a, b) => fs.statSync(...b).mtime - fs.statSync(...a).mtime)\<close>, then the checks on
  \<^verbatim>\<open>files[0]\<close>. \<^verbatim>\<open>Array.prototype.sort\<close> is stable, and the comparator orders by
  decreasing modification time: that is \<open>sort_key\<close> on the negated time. The comparator
  only looks up names that were just listed, so its \<^verbatim>\<open>statSync\<close> finds them.
\<close>

definition locate_file :: "jsstr \<Rightarrow> error \<Rightarrow> error \<Rightarrow> 'x world \<Rightarrow> error + jsstr" where
  "locate_file sanitizedTitle not_created empty_file w =
     (case downloads w of
        None \<Rightarrow> Inl enoent
      | Some es \<Rightarrow>
          (case sort_key (\<lambda>n. - mtime_of es n)
                  (filter (\<lambda>file. startsWith file sanitizedTitle) (map fname es)) of
             [] \<Rightarrow> Inl not_created
           | downloadedFile # others \<Rightarrow>
               (case statSync es downloadedFile of
                  None \<Rightarrow> Inl empty_file
                | Some stats \<Rightarrow> if fsize stats = 0 then Inl empty_file else Inr downloadedFile)))"

subsection \<open>The result\<close>

record video_summary =
  vs_title :: jsstr
  vs_author :: jsstr
  vs_duration :: jsstr
  vs_views :: jsstr
  vs_quality :: jsstr
  vs_method :: "jsstr option"

record download_result =
  filename :: jsstr
  videoInfo :: video_summary

text \<open>
  \<^verbatim>\<open>const mins = Math.floor(seconds / 60); const secs = seconds % 60;
  `${mins}:${secs.toString().padStart(2, '0')}`\<close>. The remainder of JavaScript has the
  sign of the dividend.
\<close>

definition js_rem :: "int \<Rightarrow> int \<Rightarrow> int" where
  "js_rem a b = sgn a * (\<bar>a\<bar> mod \<bar>b\<bar>)"

definition formatDuration :: "int \<Rightarrow> jsstr" where
  "formatDuration seconds =
     show_int (seconds div 60) @ js '':'' @ padStart2 (show_int (js_rem seconds 60))"

definition author_of :: "video_info \<Rightarrow> jsstr" where
  "author_of info =
     (if truthy (info_uploader info) then (case info_uploader info of Some u \<Rightarrow> u | None \<Rightarrow> [])
      else if truthy (info_channel info) then (case info_channel info of Some c \<Rightarrow> c | None \<Rightarrow> [])
      else js ''N/A'')"

definition summary :: "'x env \<Rightarrow> video_info \<Rightarrow> jsstr option \<Rightarrow> video_summary" where
  "summary env info method =
     \<lparr>vs_title = info_title info,
      vs_author = author_of info,
      vs_duration = formatDuration (case info_duration info of None \<Rightarrow> 0 | Some d \<Rightarrow> d),
      vs_views = (case info_view_count info of
                    None \<Rightarrow> js ''N/A''
                  | Some v \<Rightarrow> if v = 0 then js ''N/A'' else toLocaleString env v),
      vs_quality = (case info_height info of
                      None \<Rightarrow> js ''N/A''
                    | Some h \<Rightarrow> if h = 0 then js ''N/A'' else show_int h @ js ''p''),
      vs_method = method\<rparr>"

definition msg_not_found :: jsstr where
  "msg_not_found = js ''yt-dlp n'' @ [0xE3] @ js ''o encontrado''"

definition msg_no_info :: jsstr where
  "msg_no_info = js ''N'' @ [0xE3] @ js ''o foi poss'' @ [0xED] @ js ''vel obter informa'' @ [0xE7] @ [0xF5] @ js ''es do v'' @ [0xED] @ js ''deo''"

definition msg_not_created :: jsstr where
  "msg_not_created = js ''Arquivo n'' @ [0xE3] @ js ''o foi criado''"

definition msg_empty :: jsstr where
  "msg_empty = js ''Arquivo vazio ou corrompido''"

subsection \<open>The whole function\<close>

definition downloadViaYtDlp ::
  "bool \<Rightarrow> 'x env \<Rightarrow> jsstr \<Rightarrow> 'x st \<Rightarrow> (error + download_result) \<times> 'x st" where
  "downloadViaYtDlp isProduction env videoUrl s =
     (case detect_ytdlp isProduction env (Error msg_not_found)
             (ensure_downloads (fst s), snd s @ [Called YtDlp]) of
        (Inl e, s1) \<Rightarrow> (Inl e, s1)
      | (Inr ytDlpCommand, s1) \<Rightarrow>
     (case fetch_info env ytDlpCommand videoUrl (Error msg_no_info) s1 of
        (Inl e, s2) \<Rightarrow> (Inl e, s2)
      | (Inr info, s2) \<Rightarrow>
     (case run_strategies env
             (downloadStrategies ytDlpCommand
                (output_title info (fst s2) @ js ''.%(ext)s'') videoUrl) s2 of
        (Inl e, s3) \<Rightarrow> (Inl e, s3)
      | (Inr u, s3) \<Rightarrow>
     (case locate_file (output_title info (fst s2)) (Error msg_not_created) (Error msg_empty)
             (fst s3) of
        Inl e \<Rightarrow> (Inl e, s3)
      | Inr downloadedFile \<Rightarrow>
          (Inr \<lparr>filename = downloadedFile, videoInfo = summary env info (Some (js ''yt-dlp''))\<rparr>,
           s3)))))"

section \<open>The fallback path: \<^verbatim>\<open>downloadViaInvidious\<close>\<close>

text \<open>
  \<^verbatim>\<open>youtubeUrl.match(/(?:youtube\.com\/watch\?v=|youtu\.be\/)([^&\n?#]+)/)\<close>: the pattern
  is not anchored, so the leftmost position where one of the two markers is followed by
  at least one character other than \<^verbatim>\<open>&\<close>, line feed, \<^verbatim>\<open>?\<close> and \<^verbatim>\<open>#\<close> matches, and the
  group is the longest run of such characters.
\<close>

definition id_char :: "16 word \<Rightarrow> bool" where
  "id_char c \<longleftrightarrow> c \<noteq> 0x26 \<and> c \<noteq> 0x0A \<and> c \<noteq> 0x3F \<and> c \<noteq> 0x23"

definition id_after :: "jsstr \<Rightarrow> jsstr \<Rightarrow> jsstr option" where
  "id_after marker s =
     (if startsWith s marker \<and> takeWhile id_char (drop (length marker) s) \<noteq> []
      then Some (takeWhile id_char (drop (length marker) s)) else None)"

fun extractVideoId :: "jsstr \<Rightarrow> jsstr option" where
  "extractVideoId [] = None"
| "extractVideoId (c # cs) =
     (case id_after (js ''youtube.com/watch?v='') (c # cs) of
        Some v \<Rightarrow> Some v
      | None \<Rightarrow>
          (case id_after (js ''youtu.be/'') (c # cs) of
             Some v \<Rightarrow> Some v
           | None \<Rightarrow> extractVideoId cs))"

definition instances :: "jsstr list" where
  "instances =
     [js ''https://yewtu.be'', js ''https://invidious.nerdvpn.de'', js ''https://inv.nadeko.net'',
      js ''https://invidious.f5.si'', js ''https://invidious.kavin.rocks'',
      js ''https://invidious.io'', js ''https://inv.riverside.rocks'']"

text \<open>
  \<^verbatim>\<open>data.formatStreams?.find(f => f.container === 'mp4' && f.qualityLabel &&
  parseInt(f.qualityLabel) <= 720)\<close>, and when that finds nothing
  \<^verbatim>\<open>data.formatStreams?.find(f => f.container === 'mp4')\<close>. A comparison with NaN is false.
\<close>

definition capped_mp4 :: "format_stream \<Rightarrow> bool" where
  "capped_mp4 f \<longleftrightarrow>
     container f = js ''mp4'' \<and> truthy (qualityLabel f) \<and>
     (case qualityLabel f of
        None \<Rightarrow> False
      | Some q \<Rightarrow> (case parseInt q of None \<Rightarrow> False | Some n \<Rightarrow> n \<le> 720))"

definition pick_format :: "format_stream list option \<Rightarrow> format_stream option" where
  "pick_format streams =
     (case streams of
        None \<Rightarrow> None
      | Some fs \<Rightarrow>
          (case find capped_mp4 fs of
             Some f \<Rightarrow> Some f
           | None \<Rightarrow> find (\<lambda>f. container f = js ''mp4'') fs))"

text \<open>
  The body of the loop over the instances. \<open>None\<close> is \<^verbatim>\<open>continue\<close>, also when the
  \<^verbatim>\<open>catch\<close> of the body swallows an exception.
\<close>

definition try_instance ::
  "'x env \<Rightarrow> jsstr \<Rightarrow> jsstr \<Rightarrow> 'x st \<Rightarrow> download_result option \<times> 'x st" where
  "try_instance env instance videoId s =
     (case fetchAsync env (instance @ js ''/api/v1/videos/'' @ videoId) s of
        (Inl e, s1) \<Rightarrow> (None, s1)
      | (Inr response, s1) \<Rightarrow>
          if \<not> ok response then (None, s1)
          else
            (case json_body response of
               Inl e \<Rightarrow> (None, s1)
             | Inr data \<Rightarrow>
                 if truthy (data_error data) then (None, s1)
                 else
                   (case pick_format (formatStreams data) of
                      None \<Rightarrow> (None, s1)
                    | Some format \<Rightarrow>
                        (case fetchAsync env (stream_url format) s1 of
                           (Inl e, s2) \<Rightarrow> (None, s2)
                         | (Inr videoResponse, s2) \<Rightarrow>
                             if \<not> ok videoResponse then (None, s2)
                             else
                               (case arrayBuffer videoResponse of
                                  Inl e \<Rightarrow> (None, s2)
                                | Inr buffer \<Rightarrow>
                                    (case writeFileSync
                                            (sanitizeFilename (data_title data) @ js ''.mp4'')
                                            buffer s2 of
                                       Inl e \<Rightarrow> (None, s2)
                                     | Inr s3 \<Rightarrow>
                                         (Some
                                           \<lparr>filename =
                                              sanitizeFilename (data_title data) @ js ''.mp4'',
                                            videoInfo =
                                              \<lparr>vs_title = data_title data,
                                               vs_author = data_author data,
                                               vs_duration = formatDuration (lengthSeconds data),
                                               vs_views =
                                                 (case viewCount data of
                                                    None \<Rightarrow> js ''N/A''
                                                  | Some v \<Rightarrow>
                                                      if v = 0 then js ''N/A''
                                                      else toLocaleString env v),
                                               vs_quality =
                                                 (if truthy (qualityLabel format)
                                                  then (case qualityLabel format of
                                                          Some q \<Rightarrow> q | None \<Rightarrow> [])
                                                  else js ''N/A''),
                                               vs_method = Some (js ''Invidious'')\<rparr>\<rparr>,
                                          s3)))))))"

definition msg_bad_url :: jsstr where
  "msg_bad_url = js ''URL inv'' @ [0xE1] @ js ''lida''"

definition msg_invidious_failed :: jsstr where
  "msg_invidious_failed = js ''Todas as inst'' @ [0xE2] @ js ''ncias Invidious falharam''"

text \<open>\<^verbatim>\<open>for (const instance of instances) { ... }\<close> and the \<^verbatim>\<open>throw\<close> after it.\<close>

fun try_instances ::
  "'x env \<Rightarrow> jsstr list \<Rightarrow> jsstr \<Rightarrow> 'x st \<Rightarrow> (error + download_result) \<times> 'x st" where
  "try_instances env [] videoId s = (Inl (Error msg_invidious_failed), s)"
| "try_instances env (instance # rest) videoId s =
     (case try_instance env instance videoId s of
        (Some r, s') \<Rightarrow> (Inr r, s')
      | (None, s') \<Rightarrow> try_instances env rest videoId s')"

definition downloadViaInvidious ::
  "'x env \<Rightarrow> jsstr \<Rightarrow> 'x st \<Rightarrow> (error + download_result) \<times> 'x st" where
  "downloadViaInvidious env videoUrl s =
     (case extractVideoId videoUrl of
        None \<Rightarrow> (Inl (Error msg_bad_url), (fst s, snd s @ [Called Invidious]))
      | Some videoId \<Rightarrow>
          try_instances env instances videoId
            (ensure_downloads (fst s), snd s @ [Called Invidious]))"

section \<open>\<^verbatim>\<open>downloadVideoForWeb\<close>: the primary path, then the fallback\<close>

text \<open>
  \<^verbatim>\<open>try { return await downloadViaYtDlp(videoUrl); } catch (error) {
  if (error.message.includes('Sign in to confirm') || error.message.includes('bot') ||
  error.message.includes('age')) { return await downloadViaInvidious(videoUrl); }
  else { throw error; } }\<close>
\<close>

definition downloadVideoForWeb ::
  "bool \<Rightarrow> 'x env \<Rightarrow> jsstr \<Rightarrow> 'x st \<Rightarrow> (error + download_result) \<times> 'x st" where
  "downloadVideoForWeb isProduction env videoUrl s =
     (case downloadViaYtDlp isProduction env videoUrl s of
        (Inr result, s') \<Rightarrow> (Inr result, s')
      | (Inl error, s') \<Rightarrow>
          if includes_str (message error) (js ''Sign in to confirm'') \<or>
             includes_str (message error) (js ''bot'') \<or>
             includes_str (message error) (js ''age'')
          then downloadViaInvidious env videoUrl s'
          else (Inl error, s'))"

section \<open>The route \<^verbatim>\<open>POST /download\<close>\<close>

text \<open>
  \<^verbatim>\<open>/^https?:\/\/(www\.)?(youtube\.com\/watch\?v=|youtu\.be\/)[\w-]{11}/.test(url)\<close>:
  the string matches when, for some choice of the scheme, of the optional \<^verbatim>\<open>www.\<close> and of
  the host alternative, it starts with them and goes on with eleven characters of
  \<^verbatim>\<open>[A-Za-z0-9_-]\<close>.
\<close>

definition word_or_dash :: "16 word \<Rightarrow> bool" where
  "word_or_dash c \<longleftrightarrow>
     (0x41 \<le> c \<and> c \<le> 0x5A) \<or> (0x61 \<le> c \<and> c \<le> 0x7A) \<or> (0x30 \<le> c \<and> c \<le> 0x39) \<or>
     c = 0x5F \<or> c = 0x2D"

definition eleven_id_chars :: "jsstr \<Rightarrow> bool" where
  "eleven_id_chars s \<longleftrightarrow> 11 \<le> length s \<and> list_all word_or_dash (take 11 s)"

definition validateYouTubeUrl :: "jsstr \<Rightarrow> bool" where
  "validateYouTubeUrl url \<longleftrightarrow>
     list_ex (\<lambda>scheme.
       list_ex (\<lambda>www.
         list_ex (\<lambda>host.
           startsWith url (scheme @ www @ host) \<and>
           eleven_id_chars (drop (length (scheme @ www @ host)) url))
         [js ''youtube.com/watch?v='', js ''youtu.be/''])
       [js ''www.'', []])
     [js ''http://'', js ''https://'']"

text \<open>
  The body of the request after \<^verbatim>\<open>express.json()\<close>: the two fields the handler reads,
  \<open>None\<close> when the field is absent.
\<close>

record request_body =
  body_url :: "jsstr option"
  body_format :: "jsstr option"

record response_data =
  rd_filename :: jsstr
  rd_downloadUrl :: jsstr
  rd_videoInfo :: video_summary

record response =
  status :: int
  success :: bool
  error_text :: "jsstr option"
  message_text :: "jsstr option"
  payload :: "response_data option"

text \<open>
  What the handler writes to the console and to the logger: the request with its format,
  the completed download (URL, format, file name) and the failed one (message, URL,
  format).
\<close>

datatype log_entry =
    RequestLogged jsstr jsstr
  | DownloadCompleted jsstr jsstr jsstr
  | DownloadFailed jsstr jsstr jsstr

definition url_required :: jsstr where
  "url_required = js ''URL '' @ [0xE9] @ js '' obrigat'' @ [0xF3] @ js ''ria''"

definition url_invalid :: jsstr where
  "url_invalid = js ''URL do YouTube inv'' @ [0xE1] @ js ''lida''"

definition format_invalid :: jsstr where
  "format_invalid = js ''Formato inv'' @ [0xE1] @ js ''lido. Use: mp4, webm ou mp3''"

definition download_done :: jsstr where
  "download_done = js ''Download conclu'' @ [0xED] @ js ''do com sucesso!''"

definition internal_error :: jsstr where
  "internal_error = js ''Erro interno do servidor''"

text \<open>\<^verbatim>\<open>res.status(code).json({ success: false, error: text })\<close>.\<close>

definition failure :: "int \<Rightarrow> jsstr \<Rightarrow> response" where
  "failure code text =
     \<lparr>status = code, success = False, error_text = Some text, message_text = None,
      payload = None\<rparr>"

text \<open>
  The handler of \<^verbatim>\<open>app.post('/download', ...)\<close>. Its text is the same in both versions of
  \<^verbatim>\<open>server.js\<close>; \<open>download\<close> is the \<^verbatim>\<open>downloadVideoForWeb\<close> of the version. The format
  defaults to \<^verbatim>\<open>mp4\<close> when absent; after its validation it is only logged.
\<close>

definition post_download ::
  "(jsstr \<Rightarrow> 'x st \<Rightarrow> (error + download_result) \<times> 'x st) \<Rightarrow> 'x env \<Rightarrow> request_body \<Rightarrow> 'x st
     \<Rightarrow> (response \<times> log_entry list) \<times> 'x st" where
  "post_download download env body s =
     (let format = (case body_format body of None \<Rightarrow> js ''mp4'' | Some f \<Rightarrow> f) in
      if \<not> truthy (body_url body) then ((failure 400 url_required, []), s)
      else
        (case body_url body of
           None \<Rightarrow> ((failure 400 url_required, []), s)
         | Some url \<Rightarrow>
             if \<not> validateYouTubeUrl url then ((failure 400 url_invalid, []), s)
             else if format \<notin> set [js ''mp4'', js ''webm'', js ''mp3'']
             then ((failure 400 format_invalid, []), s)
             else
               (case download url s of
                  (Inr result, s') \<Rightarrow>
                    (case encodeURIComponent env (filename result) of
                       Inr encoded \<Rightarrow>
                         ((\<lparr>status = 200, success = True, error_text = None,
                            message_text = Some download_done,
                            payload =
                              Some \<lparr>rd_filename = filename result,
                                    rd_downloadUrl = js ''/download-file/'' @ encoded,
                                    rd_videoInfo = videoInfo result\<rparr>\<rparr>,
                           [RequestLogged url format,
                            DownloadCompleted url format (filename result)]),
                          s')
                     | Inl downloadError \<Rightarrow>
                         ((failure 500 internal_error,
                           [RequestLogged url format,
                            DownloadCompleted url format (filename result),
                            DownloadFailed (message downloadError) url format]),
                          s'))
                | (Inl downloadError, s') \<Rightarrow>
                    ((failure 500 internal_error,
                      [RequestLogged url format,
                       DownloadFailed (message downloadError) url format]),
                     s'))))"

section \<open>Retention Sweeper: \<^verbatim>\<open>cleanupOldFiles\<close>\<close>





section \<open>The other version of \<^verbatim>\<open>server.js\<close>: download with error classification\<close>


















section \<open>Describing runs\<close>

text \<open>
  The events of consecutive strategy attempts, from the attempt of index \<open>i\<close> on, with
  the given outcomes: every attempt after the first of the list is preceded by a wait of
  2000 ms, and runs the command of its index with a timeout of 300000 ms.
\<close>

fun attempt_events :: "jsstr list \<Rightarrow> nat \<Rightarrow> error option list \<Rightarrow> event list" where
  "attempt_events strategies i [] = []"
| "attempt_events strategies i (outcome # outcomes) =
     (if i > 0 then [Sleep 2000] else []) @
     Exec StrategyAttempt (strategies ! i) 300000 outcome #
     attempt_events strategies (i + 1) outcomes"

text \<open>The events of version probes of the candidates, in order, with the given outcomes.\<close>

definition probe_events :: "jsstr list \<Rightarrow> error option list \<Rightarrow> event list" where
  "probe_events cmds outcomes =
     map (\<lambda>(cmd, outcome). Exec VersionProbe (cmd @ js '' --version'') 5000 outcome)
       (zip cmds outcomes)"

text \<open>An event is a strategy attempt, a version probe, or comes from the fallback.\<close>

fun is_attempt :: "event \<Rightarrow> bool" where
  "is_attempt (Exec StrategyAttempt cmd t outcome) = True"
| "is_attempt ev = False"

fun is_probe :: "event \<Rightarrow> bool" where
  "is_probe (Exec VersionProbe cmd t outcome) = True"
| "is_probe ev = False"

fun from_fallback :: "event \<Rightarrow> bool" where
  "from_fallback (Fetch u) = True"
| "from_fallback (WriteFile n k) = True"
| "from_fallback ev = False"

fun from_primary :: "event \<Rightarrow> bool" where
  "from_primary (Called YtDlp) = True"
| "from_primary (Exec site cmd t outcome) = True"
| "from_primary (Sleep ms) = True"
| "from_primary ev = False"

text \<open>
  A run from the state \<open>s\<close> to the state \<open>s'\<close> keeps the events recorded so far and adds
  only events of the kind \<open>P\<close>.
\<close>

definition adds_only :: "(event \<Rightarrow> bool) \<Rightarrow> 'x st \<Rightarrow> 'x st \<Rightarrow> bool" where
  "adds_only P s s' \<longleftrightarrow> (\<exists>evs. snd s' = snd s @ evs \<and> list_all P evs)"

section \<open>Sample worlds and environments\<close>

text \<open>Concrete inputs on which the functions above are run in the examples below.\<close>

definition world0 :: "unit world" where
  "world0 = \<lparr>downloads = Some [], clock = 1000, outside = ()\<rparr>"

definition watch_url :: jsstr where
  "watch_url = js ''https://youtu.be/abcdefghijk''"

definition no_fetch :: "jsstr \<Rightarrow> unit world \<Rightarrow> (error + http_response) \<times> unit world" where
  "no_fetch u w = (Inl (Error (js ''fetch failed'')), w)"

text \<open>A downloader on which the command \<^verbatim>\<open>A\<close> fails and every other command succeeds.\<close>

definition env_first_fails :: "unit env" where
  "env_first_fails =
     \<lparr>exec = (\<lambda>cmd t w. if cmd = js ''A'' then (Inl (Error (js ''A failed'')), w)
                          else (Inr [], w)),
      JSON_parse = (\<lambda>out. Inr None),
      fetch = no_fetch,
      toLocaleString = show_int,
      encodeURIComponent = Inr\<rparr>"

text \<open>A downloader on which every command fails, with a message that names the command.\<close>

definition env_all_fail :: "unit env" where
  "env_all_fail =
     \<lparr>exec = (\<lambda>cmd t w. (Inl (Error (cmd @ js '' failed'')), w)),
      JSON_parse = (\<lambda>out. Inr None),
      fetch = no_fetch,
      toLocaleString = show_int,
      encodeURIComponent = Inr\<rparr>"

text \<open>
  A site that blocks the downloader: the version query of \<^verbatim>\<open>yt-dlp\<close> works, every other
  command is rejected with the bot-detection text, and every Invidious instance answers
  with one MP4 stream whose content is \<open>bytes\<close>.
\<close>

definition sample_data :: invidious_data where
  "sample_data =
     \<lparr>data_error = None, data_title = js ''My Video'', data_author = js ''Someone'',
      lengthSeconds = 125, viewCount = Some 1000,
      formatStreams =
        Some [\<lparr>container = js ''mp4'', qualityLabel = Some (js ''360p''),
               stream_url = js ''https://cdn.example/v''\<rparr>]\<rparr>"

definition env_blocked :: "8 word list \<Rightarrow> unit env" where
  "env_blocked bytes =
     \<lparr>exec = (\<lambda>cmd t w.
               if cmd = js ''yt-dlp --version'' then (Inr (js ''2024.01.01''), w)
               else (Inl (Error (js ''ERROR: Sign in to confirm you are not a bot'')), w)),
      JSON_parse = (\<lambda>out. Inr None),
      fetch = (\<lambda>u w. (Inr \<lparr>ok = True, status = 200, json_body = Inr sample_data,
                            arrayBuffer = Inr bytes\<rparr>, w)),
      toLocaleString = show_int,
      encodeURIComponent = Inr\<rparr>"

text \<open>A video that is not there: every command is rejected with that text.\<close>

definition env_unavailable :: "unit env" where
  "env_unavailable =
     \<lparr>exec = (\<lambda>cmd t w. (Inl (Error (js ''ERROR: Video unavailable'')), w)),
      JSON_parse = (\<lambda>out. Inr None),
      fetch = no_fetch,
      toLocaleString = show_int,
      encodeURIComponent = Inr\<rparr>"

text \<open>
  A downloader that works: a command with \<^verbatim>\<open>--format\<close> writes \<^verbatim>\<open>foo.mp4\<close> (10 bytes),
  and the metadata say that the title is \<^verbatim>\<open>foo\<close>.
\<close>

definition sample_info :: video_info where
  "sample_info =
     \<lparr>info_title = js ''foo'', info_id = js ''abcdefghijk'',
      info_uploader = Some (js ''Someone''), info_channel = None, info_duration = Some 125,
      info_view_count = Some 1000, info_height = Some 720\<rparr>"

definition env_works :: "unit env" where
  "env_works =
     \<lparr>exec = (\<lambda>cmd t w.
               if includes_str cmd (js ''--format'')
               then (Inr [],
                     w\<lparr>downloads :=
                         Some (put_file (js ''foo.mp4'') (clock w) 10
                                 (case downloads w of None \<Rightarrow> [] | Some es \<Rightarrow> es))\<rparr>)
               else (Inr (js ''{}''), w)),
      JSON_parse = (\<lambda>out. Inr (Some sample_info)),
      fetch = no_fetch,
      toLocaleString = show_int,
      encodeURIComponent = Inr\<rparr>"




definition after_download :: "unit st" where
  "after_download =
     (world0\<lparr>downloads :=
         Some [\<lparr>fname = js ''foo.mp4'', mtime = 1000, fsize = 10, removable = True\<rparr>]\<rparr>,
      [Called YtDlp, Exec InfoQuery (infoCommand (js ''./yt-dlp'') watch_url) 30000 None,
       Exec StrategyAttempt
         (hd (downloadStrategies (js ''./yt-dlp'') (js ''foo.%(ext)s'') watch_url)) 300000 None])"



section \<open>Strings and the Filename Sanitizer: proofs\<close>

lemma startsWith_prefix: "startsWith s p \<longleftrightarrow> prefix p s"
  by (induction s p rule: startsWith.induct) auto

lemma includes_str_iff: "includes_str s sub \<longleftrightarrow> (\<exists>ps ss. s = ps @ sub @ ss)"
proof (induction s)
  case Nil
  then show ?case by auto
next
  case (Cons c cs)
  have "(\<exists>ps ss. c # cs = ps @ sub @ ss) \<longleftrightarrow> prefix sub (c # cs) \<or> (\<exists>ps ss. cs = ps @ sub @ ss)"
  proof
    assume "\<exists>ps ss. c # cs = ps @ sub @ ss"
    then obtain ps ss where eq: "c # cs = ps @ sub @ ss" by blast
    show "prefix sub (c # cs) \<or> (\<exists>ps ss. cs = ps @ sub @ ss)"
    proof (cases ps)
      case Nil
      with eq show ?thesis by (auto simp: prefix_def)
    next
      case (Cons p ps')
      with eq have "cs = ps' @ sub @ ss" by simp
      then show ?thesis by blast
    qed
  next
    assume "prefix sub (c # cs) \<or> (\<exists>ps ss. cs = ps @ sub @ ss)"
    then show "\<exists>ps ss. c # cs = ps @ sub @ ss"
    proof
      assume "prefix sub (c # cs)"
      then obtain ss where "c # cs = sub @ ss" by (auto simp: prefix_def)
      then have "c # cs = [] @ sub @ ss" by simp
      then show ?thesis by blast
    next
      assume "\<exists>ps ss. cs = ps @ sub @ ss"
      then obtain ps ss where "cs = ps @ sub @ ss" by blast
      then have "c # cs = (c # ps) @ sub @ ss" by simp
      then show ?thesis by blast
    qed
  qed
  with Cons show ?case by (simp add: startsWith_prefix)
qed

lemma space_is_space: "is_space 0x20"
  by (simp add: is_space_def)

















lemma collapse_ws_filter: "filter (\<lambda>c. \<not> is_space c) (collapse_ws s) = filter (\<lambda>c. \<not> is_space c) s"
proof (induction s rule: collapse_ws.induct)
  case 1
  then show ?case by simp
next
  case (2 c cs)
  have "filter (\<lambda>c. \<not> is_space c) (dropWhile is_space cs) = filter (\<lambda>c. \<not> is_space c) cs"
    by (induction cs) auto
  with 2 show ?case by (auto simp: space_is_space)
qed

lemma trim_filter: "filter (\<lambda>c. \<not> is_space c) (trim s) = filter (\<lambda>c. \<not> is_space c) s"
proof -
  have d: "filter (\<lambda>c. \<not> is_space c) (dropWhile is_space xs) = filter (\<lambda>c. \<not> is_space c) xs" for xs
    by (induction xs) auto
  show ?thesis unfolding trim_def by (simp add: d rev_filter [symmetric])
qed

lemma sanitizeFilename_keeps:
  "filter (\<lambda>c. \<not> is_space c) (sanitizeFilename s) = filter (\<lambda>c. \<not> is_space c \<and> \<not> forbidden c) s"
  by (simp add: sanitizeFilename_def trim_filter collapse_ws_filter strip_forbidden_def conj_commute)


section \<open>Strategy Runner: proofs\<close>

lemma execAsync_trace:
  "execAsync env site cmd t s = (r, s') \<Longrightarrow>
   snd s' = snd s @ [Exec site cmd t (case r of Inl e \<Rightarrow> Some e | Inr out \<Rightarrow> None)]"
  by (auto simp: execAsync_def split: prod.splits)

declare strategy_loop.simps [simp del]

lemma strategy_loop_run:
  "strategy_loop env strategies i lastError s = ((won, lastError'), s') \<Longrightarrow>
   (\<exists>errs. won \<and> i + length errs < length strategies \<and>
      lastError' = (if errs = [] then lastError else Some (last errs)) \<and>
      snd s' = snd s @ attempt_events strategies i (map Some errs @ [None])) \<or>
   (\<exists>errs. \<not> won \<and> i + length errs = max i (length strategies) \<and>
      lastError' = (if errs = [] then lastError else Some (last errs)) \<and>
      snd s' = snd s @ attempt_events strategies i (map Some errs))"
proof (induction env strategies i lastError s rule: strategy_loop.induct)
  case (1 env strategies i lastError s)
  show ?case
  proof (cases "i < length strategies")
    case False
    with "1.prems" have "\<not> won" "lastError' = lastError" "s' = s"
      by (simp_all add: strategy_loop.simps)
    with False have "\<not> won \<and> i + length ([]::error list) = max i (length strategies) \<and>
      lastError' = (if ([]::error list) = [] then lastError else Some (last [])) \<and>
      snd s' = snd s @ attempt_events strategies i (map Some [])" by simp
    then show ?thesis by blast
  next
    case True
    let ?s0 = "if i > 0 then sleep 2000 s else s"
    obtain r s1 where ex: "execAsync env StrategyAttempt (strategies ! i) 300000 ?s0 = (r, s1)"
      by (cases "execAsync env StrategyAttempt (strategies ! i) 300000 ?s0")
    have tr1: "snd s1 = snd s @ (if i > 0 then [Sleep 2000] else []) @
        [Exec StrategyAttempt (strategies ! i) 300000 (case r of Inl e \<Rightarrow> Some e | Inr out \<Rightarrow> None)]"
      using execAsync_trace [OF ex] by (simp add: sleep_def)
    show ?thesis
    proof (cases r)
      case (Inr out)
      with True ex "1.prems" have "won" "lastError' = lastError" "s' = s1"
        by (simp_all add: strategy_loop.simps)
      with tr1 Inr True have "won \<and> i + length ([]::error list) < length strategies \<and>
        lastError' = (if ([]::error list) = [] then lastError else Some (last [])) \<and>
        snd s' = snd s @ attempt_events strategies i (map Some [] @ [None])" by simp
      then show ?thesis by blast
    next
      case (Inl e)
      with True ex "1.prems" have rec: "strategy_loop env strategies (i + 1) (Some e) s1 = ((won, lastError'), s')"
        by (simp add: strategy_loop.simps)
      from "1.IH" [OF True ex [symmetric] Inl rec]
      consider (succ) errs where "won" "i + 1 + length errs < length strategies"
          "lastError' = (if errs = [] then Some e else Some (last errs))"
          "snd s' = snd s1 @ attempt_events strategies (i + 1) (map Some errs @ [None])"
        | (fail) errs where "\<not> won" "i + 1 + length errs = max (i + 1) (length strategies)"
          "lastError' = (if errs = [] then Some e else Some (last errs))"
          "snd s' = snd s1 @ attempt_events strategies (i + 1) (map Some errs)"
        by blast
      then show ?thesis
      proof cases
        case succ
        with tr1 Inl have "won \<and> i + length (e # errs) < length strategies \<and>
          lastError' = (if e # errs = [] then lastError else Some (last (e # errs))) \<and>
          snd s' = snd s @ attempt_events strategies i (map Some (e # errs) @ [None])" by simp
        then show ?thesis by blast
      next
        case fail
        with tr1 Inl True have "\<not> won \<and> i + length (e # errs) = max i (length strategies) \<and>
          lastError' = (if e # errs = [] then lastError else Some (last (e # errs))) \<and>
          snd s' = snd s @ attempt_events strategies i (map Some (e # errs))" by simp
        then show ?thesis by blast
      qed
    qed
  qed
qed

text \<open>
  Claim C1. For every list of strategies, the events of the Strategy Runner are the
  attempts of a prefix of the list, in the configured order, each attempt after the first
  preceded by a wait of 2000 ms (\<open>attempt_events\<close> from index 0). Either the last attempt
  of that prefix succeeded and all attempts before it failed: the runner stops there with
  success, and no later strategy is attempted. Or every strategy of the list was attempted
  and failed, and the runner fails with the error of the last attempt, not of the first.
  (With no strategy at all no error is observed, and the runner fails with its own text.)
\<close>

theorem strategy_runner_order:
  assumes "run_strategies env strategies s = (r, s')"
  shows "(\<exists>errs. length errs < length strategies \<and> r = Inr () \<and>
            snd s' = snd s @ attempt_events strategies 0 (map Some errs @ [None])) \<or>
         (\<exists>errs. length errs = length strategies \<and>
            r = Inl (if errs = [] then Error msg_all_failed else last errs) \<and>
            snd s' = snd s @ attempt_events strategies 0 (map Some errs))"
proof -
  obtain won lastError s1 where loop: "strategy_loop env strategies 0 None s = ((won, lastError), s1)"
    by (metis surj_pair)
  with assms have r: "r = (if \<not> won then Inl (case lastError of Some e \<Rightarrow> e | None \<Rightarrow> Error msg_all_failed) else Inr ())"
    and s': "s' = s1"
    by (auto simp: run_strategies_def split: if_splits)
  from strategy_loop_run [OF loop]
  consider (succ) errs where "won" "length errs < length strategies"
      "snd s1 = snd s @ attempt_events strategies 0 (map Some errs @ [None])"
    | (fail) errs where "\<not> won" "length errs = length strategies"
      "lastError = (if errs = [] then None else Some (last errs))"
      "snd s1 = snd s @ attempt_events strategies 0 (map Some errs)"
    by auto
  then show ?thesis
  proof cases
    case succ
    with r s' show ?thesis by auto
  next
    case fail
    with r s' have "length errs = length strategies \<and>
            r = Inl (if errs = [] then Error msg_all_failed else last errs) \<and>
            snd s' = snd s @ attempt_events strategies 0 (map Some errs)" by simp
    then show ?thesis by blast
  qed
qed

theorem strategy_runner_order_witness:
  "run_strategies env_first_fails [js ''A'', js ''B'', js ''C''] (world0, []) =
     (Inr (), (world0, [Exec StrategyAttempt (js ''A'') 300000 (Some (Error (js ''A failed''))),
                        Sleep 2000, Exec StrategyAttempt (js ''B'') 300000 None])) \<and>
   (\<exists>errs. length errs < 3 \<and>
      [Exec StrategyAttempt (js ''A'') 300000 (Some (Error (js ''A failed''))),
       Sleep 2000, Exec StrategyAttempt (js ''B'') 300000 None] =
      attempt_events [js ''A'', js ''B'', js ''C''] 0 (map Some errs @ [None])) \<and>
   run_strategies env_all_fail [js ''A'', js ''B''] (world0, []) =
     (Inl (Error (js ''B failed'')),
      (world0, [Exec StrategyAttempt (js ''A'') 300000 (Some (Error (js ''A failed''))),
                Sleep 2000,
                Exec StrategyAttempt (js ''B'') 300000 (Some (Error (js ''B failed'')))])) \<and>
   (\<exists>errs. length errs = length [js ''A'', js ''B''] \<and>
      (Inl (Error (js ''B failed'')) :: error + unit) =
        Inl (if errs = [] then Error msg_all_failed else last errs))"
proof -
  have a: "run_strategies env_first_fails [js ''A'', js ''B'', js ''C''] (world0, []) =
     (Inr (), (world0, [Exec StrategyAttempt (js ''A'') 300000 (Some (Error (js ''A failed''))),
                        Sleep 2000, Exec StrategyAttempt (js ''B'') 300000 None]))"
    by code_simp
  have b: "run_strategies env_all_fail [js ''A'', js ''B''] (world0, []) =
     (Inl (Error (js ''B failed'')),
      (world0, [Exec StrategyAttempt (js ''A'') 300000 (Some (Error (js ''A failed''))),
                Sleep 2000,
                Exec StrategyAttempt (js ''B'') 300000 (Some (Error (js ''B failed'')))]))"
    by code_simp
  from strategy_runner_order [OF a]
  have c: "\<exists>errs. length errs < 3 \<and>
      [Exec StrategyAttempt (js ''A'') 300000 (Some (Error (js ''A failed''))),
       Sleep 2000, Exec StrategyAttempt (js ''B'') 300000 None] =
      attempt_events [js ''A'', js ''B'', js ''C''] 0 (map Some errs @ [None])"
    by (simp add: numeral_3_eq_3)
  have "\<not> (\<exists>errs. length errs < length [js ''A'', js ''B''] \<and>
      (Inl (Error (js ''B failed'')) :: error + unit) = Inr () \<and>
      snd (world0, [Exec StrategyAttempt (js ''A'') 300000 (Some (Error (js ''A failed''))),
                Sleep 2000,
                Exec StrategyAttempt (js ''B'') 300000 (Some (Error (js ''B failed'')))]) =
      snd (world0, []) @ attempt_events [js ''A'', js ''B''] 0 (map Some errs @ [None]))"
    by simp
  with strategy_runner_order [OF b]
  have d: "\<exists>errs. length errs = length [js ''A'', js ''B''] \<and>
      (Inl (Error (js ''B failed'')) :: error + unit) =
        Inl (if errs = [] then Error msg_all_failed else last errs)"
    by blast
  from a b c d show ?thesis by blast
qed

section \<open>External Downloader Invoker: the probe loop\<close>

lemma probe_events_Cons:
  "probe_events (c # cs) (x # xs) = Exec VersionProbe (c @ js '' --version'') 5000 x # probe_events cs xs"
  by (simp add: probe_events_def)

lemma probe_run:
  "probe env cmds s = (r, s') \<Longrightarrow>
   (\<exists>errs. length errs < length cmds \<and> r = Some (cmds ! length errs) \<and>
      snd s' = snd s @ probe_events cmds (map Some errs @ [None])) \<or>
   (\<exists>errs. length errs = length cmds \<and> r = None \<and>
      snd s' = snd s @ probe_events cmds (map Some errs))"
proof (induction cmds arbitrary: s)
  case Nil
  then have "length ([]::error list) = length ([]::jsstr list) \<and> r = None \<and>
      snd s' = snd s @ probe_events [] (map Some [])" by (simp add: probe_events_def)
  then show ?case by blast
next
  case (Cons cmd cmds)
  obtain x s1 where ex: "execAsync env VersionProbe (cmd @ js '' --version'') 5000 s = (x, s1)"
    by (cases "execAsync env VersionProbe (cmd @ js '' --version'') 5000 s")
  note tr1 = execAsync_trace [OF ex]
  show ?case
  proof (cases x)
    case (Inr out)
    with ex Cons.prems have "r = Some cmd" "s' = s1" by simp_all
    with tr1 Inr have "length ([]::error list) < length (cmd # cmds) \<and>
        r = Some ((cmd # cmds) ! length ([]::error list)) \<and>
        snd s' = snd s @ probe_events (cmd # cmds) (map Some [] @ [None])"
      by (simp add: probe_events_Cons) (simp add: probe_events_def)
    then show ?thesis by blast
  next
    case (Inl e)
    with ex Cons.prems have rec: "probe env cmds s1 = (r, s')" by simp
    from Cons.IH [OF rec]
    consider (found) errs where "length errs < length cmds" "r = Some (cmds ! length errs)"
        "snd s' = snd s1 @ probe_events cmds (map Some errs @ [None])"
      | (none) errs where "length errs = length cmds" "r = None"
        "snd s' = snd s1 @ probe_events cmds (map Some errs)"
      by blast
    then show ?thesis
    proof cases
      case found
      with tr1 Inl have "length (e # errs) < length (cmd # cmds) \<and>
          r = Some ((cmd # cmds) ! length (e # errs)) \<and>
          snd s' = snd s @ probe_events (cmd # cmds) (map Some (e # errs) @ [None])"
        by (simp add: probe_events_Cons)
      then show ?thesis by blast
    next
      case none
      with tr1 Inl have "length (e # errs) = length (cmd # cmds) \<and> r = None \<and>
          snd s' = snd s @ probe_events (cmd # cmds) (map Some (e # errs))"
        by (simp add: probe_events_Cons)
      then show ?thesis by blast
    qed
  qed
qed

lemma ytdlpOptions_nonempty: "c \<in> set ytdlpOptions \<Longrightarrow> c \<noteq> []"
  by (auto simp: ytdlpOptions_def js_def)

lemma length_ytdlpOptions: "length ytdlpOptions = 3"
  by (simp add: ytdlpOptions_def)

lemma detect_ytdlp_production:
  assumes "detect_ytdlp True env not_found s = (r, s')"
  shows "(\<exists>errs. length errs < 3 \<and> r = Inr (ytdlpOptions ! length errs) \<and>
            snd s' = snd s @ probe_events ytdlpOptions (map Some errs @ [None])) \<or>
         (\<exists>errs. length errs = 3 \<and> r = Inl not_found \<and>
            snd s' = snd s @ probe_events ytdlpOptions (map Some errs))"
proof -
  obtain c s1 where p: "probe env ytdlpOptions s = (c, s1)" by (cases "probe env ytdlpOptions s")
  from probe_run [OF p]
  consider (found) errs where "length errs < length ytdlpOptions" "c = Some (ytdlpOptions ! length errs)"
      "snd s1 = snd s @ probe_events ytdlpOptions (map Some errs @ [None])"
    | (none) errs where "length errs = length ytdlpOptions" "c = None"
      "snd s1 = snd s @ probe_events ytdlpOptions (map Some errs)"
    by blast
  then show ?thesis
  proof cases
    case found
    then have "ytdlpOptions ! length errs \<noteq> []"
      using ytdlpOptions_nonempty nth_mem by blast
    with found p assms have "r = Inr (ytdlpOptions ! length errs)" "s' = s1"
      by (auto simp: detect_ytdlp_def truthy_def)
    with found show ?thesis by (auto simp: length_ytdlpOptions)
  next
    case none
    with p assms have "r = Inl not_found" "s' = s1"
      by (auto simp: detect_ytdlp_def truthy_def)
    with none have "length errs = 3 \<and> r = Inl not_found \<and>
            snd s' = snd s @ probe_events ytdlpOptions (map Some errs)"
      by (simp add: length_ytdlpOptions)
    then show ?thesis by blast
  qed
qed

section \<open>What each stage adds to the events\<close>

lemma adds_only_refl: "adds_only P s s"
  by (simp add: adds_only_def)

lemma adds_only_trans: "adds_only P s s1 \<Longrightarrow> adds_only P s1 s2 \<Longrightarrow> adds_only P s s2"
  by (auto simp: adds_only_def)

lemma adds_only_mono: "adds_only P s s' \<Longrightarrow> (\<And>ev. P ev \<Longrightarrow> Q ev) \<Longrightarrow> adds_only Q s s'"
  by (auto simp: adds_only_def list_all_iff)

lemma adds_onlyI: "snd s' = snd s @ evs \<Longrightarrow> list_all P evs \<Longrightarrow> adds_only P s s'"
  by (auto simp: adds_only_def)

lemma probe_events_kind: "list_all is_probe (probe_events cmds outs)"
  by (auto simp: probe_events_def list_all_iff dest!: set_zip_leftD)

lemma attempt_events_kind:
  "list_all (\<lambda>ev. is_attempt ev \<or> ev = Sleep 2000) (attempt_events strategies i outs)"
  by (induction outs arbitrary: i) auto

lemma is_probe_primary: "is_probe ev \<Longrightarrow> from_primary ev \<and> \<not> is_attempt ev"
  by (cases ev rule: is_probe.cases) auto

lemma is_attempt_primary: "is_attempt ev \<or> ev = Sleep 2000 \<Longrightarrow> from_primary ev"
  by (cases ev rule: is_attempt.cases) auto

lemma detect_ytdlp_adds:
  assumes "detect_ytdlp p env nf s = (r, s')"
  shows "adds_only is_probe s s'"
proof (cases p)
  case False
  with assms show ?thesis by (simp add: detect_ytdlp_def adds_only_refl)
next
  case True
  with assms detect_ytdlp_production [of env nf s r s'] show ?thesis
    by (auto intro: adds_onlyI probe_events_kind)
qed

lemma fetch_info_adds:
  assumes "fetch_info env c u ni s = (r, s')"
  shows "\<exists>outcome. snd s' = snd s @ [Exec InfoQuery (infoCommand c u) 30000 outcome]"
proof -
  obtain x s1 where ex: "execAsync env InfoQuery (infoCommand c u) 30000 s = (x, s1)"
    by (cases "execAsync env InfoQuery (infoCommand c u) 30000 s")
  with assms have "s' = s1"
    by (auto simp: fetch_info_def split: sum.splits option.splits)
  with execAsync_trace [OF ex] show ?thesis by blast
qed

lemma strategy_loop_adds:
  assumes "strategy_loop env strategies i lastError s = (r, s')"
  shows "adds_only (\<lambda>ev. is_attempt ev \<or> ev = Sleep 2000) s s'"
proof -
  obtain won le where "r = (won, le)" by (cases r)
  with strategy_loop_run [of env strategies i lastError s won le s'] assms show ?thesis
    by (auto intro: adds_onlyI attempt_events_kind)
qed

lemma run_strategies_adds:
  assumes "run_strategies env strategies s = (r, s')"
  shows "adds_only (\<lambda>ev. is_attempt ev \<or> ev = Sleep 2000) s s'"
proof -
  obtain x s1 where l: "strategy_loop env strategies 0 None s = (x, s1)"
    by (cases "strategy_loop env strategies 0 None s")
  with assms have "s' = s1" by (auto simp: run_strategies_def split: prod.splits if_splits)
  with strategy_loop_adds [OF l] show ?thesis by simp
qed

section \<open>The primary path and the fallback path as wholes\<close>

text \<open>The four ways \<open>downloadViaYtDlp\<close> ends.\<close>

lemma downloadViaYtDlp_cases:
  assumes run: "downloadViaYtDlp p env url s = (r, s')"
    and no_tool: "\<And>e. detect_ytdlp p env (Error msg_not_found)
            (ensure_downloads (fst s), snd s @ [Called YtDlp]) = (Inl e, s') \<Longrightarrow> r = Inl e \<Longrightarrow> thesis"
    and no_info: "\<And>cmd s1 e. detect_ytdlp p env (Error msg_not_found)
            (ensure_downloads (fst s), snd s @ [Called YtDlp]) = (Inr cmd, s1) \<Longrightarrow>
          fetch_info env cmd url (Error msg_no_info) s1 = (Inl e, s') \<Longrightarrow> r = Inl e \<Longrightarrow> thesis"
    and no_download: "\<And>cmd s1 info s2 e. detect_ytdlp p env (Error msg_not_found)
            (ensure_downloads (fst s), snd s @ [Called YtDlp]) = (Inr cmd, s1) \<Longrightarrow>
          fetch_info env cmd url (Error msg_no_info) s1 = (Inr info, s2) \<Longrightarrow>
          run_strategies env (downloadStrategies cmd (output_title info (fst s2) @ js ''.%(ext)s'') url) s2
            = (Inl e, s') \<Longrightarrow> r = Inl e \<Longrightarrow> thesis"
    and downloaded: "\<And>cmd s1 info s2. detect_ytdlp p env (Error msg_not_found)
            (ensure_downloads (fst s), snd s @ [Called YtDlp]) = (Inr cmd, s1) \<Longrightarrow>
          fetch_info env cmd url (Error msg_no_info) s1 = (Inr info, s2) \<Longrightarrow>
          run_strategies env (downloadStrategies cmd (output_title info (fst s2) @ js ''.%(ext)s'') url) s2
            = (Inr (), s') \<Longrightarrow>
          r = (case locate_file (output_title info (fst s2)) (Error msg_not_created) (Error msg_empty) (fst s') of
                 Inl e \<Rightarrow> Inl e
               | Inr f \<Rightarrow> Inr \<lparr>filename = f, videoInfo = summary env info (Some (js ''yt-dlp''))\<rparr>) \<Longrightarrow> thesis"
  shows thesis
proof -
  let ?s0 = "(ensure_downloads (fst s), snd s @ [Called YtDlp])"
  obtain d s1 where det: "detect_ytdlp p env (Error msg_not_found) ?s0 = (d, s1)"
    by (cases "detect_ytdlp p env (Error msg_not_found) ?s0")
  show thesis
  proof (cases d)
    case (Inl e)
    with det run have "r = Inl e" "s' = s1" by (simp_all add: downloadViaYtDlp_def)
    with det Inl no_tool show thesis by blast
  next
    case (Inr cmd)
    note d = this
    obtain i s2 where inf: "fetch_info env cmd url (Error msg_no_info) s1 = (i, s2)"
      by (cases "fetch_info env cmd url (Error msg_no_info) s1")
    show thesis
    proof (cases i)
      case (Inl e)
      with det d inf run have "r = Inl e" "s' = s2" by (simp_all add: downloadViaYtDlp_def)
      with det d inf Inl no_info show thesis by blast
    next
      case (Inr info)
      note i = this
      let ?st = "downloadStrategies cmd (output_title info (fst s2) @ js ''.%(ext)s'') url"
      obtain x s3 where rs: "run_strategies env ?st s2 = (x, s3)"
        by (cases "run_strategies env ?st s2")
      show thesis
      proof (cases x)
        case (Inl e)
        with det d inf i rs run have "r = Inl e" "s' = s3" by (simp_all add: downloadViaYtDlp_def)
        with det d inf i rs Inl no_download show thesis by blast
      next
        case (Inr u)
        with det d inf i rs run have "s' = s3"
          and "r = (case locate_file (output_title info (fst s2)) (Error msg_not_created) (Error msg_empty) (fst s3) of
                 Inl e \<Rightarrow> Inl e
               | Inr f \<Rightarrow> Inr \<lparr>filename = f, videoInfo = summary env info (Some (js ''yt-dlp''))\<rparr>)"
          by (auto simp: downloadViaYtDlp_def split: sum.splits)
        with det d inf i rs Inr downloaded show thesis by simp
      qed
    qed
  qed
qed

lemma start_adds:
  "adds_only (\<lambda>ev. from_primary ev \<and> \<not> is_attempt ev) s
     (ensure_downloads (fst s), snd s @ [Called YtDlp])"
  by (rule adds_onlyI [where evs = "[Called YtDlp]"]) simp_all

lemma detect_primary: "detect_ytdlp p env nf s = (r, s') \<Longrightarrow> adds_only (\<lambda>ev. from_primary ev \<and> \<not> is_attempt ev) s s'"
  by (rule adds_only_mono [OF detect_ytdlp_adds]) (auto dest: is_probe_primary)

lemma fetch_info_primary:
  "fetch_info env c u ni s = (r, s') \<Longrightarrow> adds_only (\<lambda>ev. from_primary ev \<and> \<not> is_attempt ev) s s'"
  by (drule fetch_info_adds) (auto intro: adds_onlyI)

lemma downloadViaYtDlp_adds:
  assumes "downloadViaYtDlp p env url s = (r, s')"
  shows "adds_only from_primary s s'"
proof (rule downloadViaYtDlp_cases [OF assms])
  fix e assume "detect_ytdlp p env (Error msg_not_found) (ensure_downloads (fst s), snd s @ [Called YtDlp]) = (Inl e, s')"
  from detect_primary [OF this] show ?thesis
    by (blast intro: adds_only_trans [OF start_adds] adds_only_mono)
next
  fix cmd s1 e
  assume "detect_ytdlp p env (Error msg_not_found) (ensure_downloads (fst s), snd s @ [Called YtDlp]) = (Inr cmd, s1)"
    and "fetch_info env cmd url (Error msg_no_info) s1 = (Inl e, s')"
  from detect_primary [OF this(1)] fetch_info_primary [OF this(2)] show ?thesis
    by (blast intro: adds_only_trans [OF start_adds] adds_only_trans adds_only_mono)
next
  fix cmd s1 info s2 e
  assume "detect_ytdlp p env (Error msg_not_found) (ensure_downloads (fst s), snd s @ [Called YtDlp]) = (Inr cmd, s1)"
    and "fetch_info env cmd url (Error msg_no_info) s1 = (Inr info, s2)"
    and "run_strategies env (downloadStrategies cmd (output_title info (fst s2) @ js ''.%(ext)s'') url) s2 = (Inl e, s')"
  from detect_primary [OF this(1)] fetch_info_primary [OF this(2)] run_strategies_adds [OF this(3)]
  show ?thesis
    by (blast intro: adds_only_trans [OF start_adds] adds_only_trans adds_only_mono is_attempt_primary)
next
  fix cmd s1 info s2
  assume "detect_ytdlp p env (Error msg_not_found) (ensure_downloads (fst s), snd s @ [Called YtDlp]) = (Inr cmd, s1)"
    and "fetch_info env cmd url (Error msg_no_info) s1 = (Inr info, s2)"
    and "run_strategies env (downloadStrategies cmd (output_title info (fst s2) @ js ''.%(ext)s'') url) s2 = (Inr (), s')"
  from detect_primary [OF this(1)] fetch_info_primary [OF this(2)] run_strategies_adds [OF this(3)]
  show ?thesis
    by (blast intro: adds_only_trans [OF start_adds] adds_only_trans adds_only_mono is_attempt_primary)
qed

text \<open>The events of the fallback path.\<close>

lemma fetchAsync_adds: "fetchAsync env u s = (r, s') \<Longrightarrow> adds_only from_fallback s s'"
  by (auto simp: fetchAsync_def adds_only_def split: prod.splits)

lemma writeFileSync_adds: "writeFileSync n b s = Inr s' \<Longrightarrow> adds_only from_fallback s s'"
  by (auto simp: writeFileSync_def adds_only_def split: option.splits)

lemma try_instance_adds:
  assumes "try_instance env i v s = (r, s')"
  shows "adds_only from_fallback s s'"
proof -
  obtain x s1 where f1: "fetchAsync env (i @ js ''/api/v1/videos/'' @ v) s = (x, s1)"
    by (cases "fetchAsync env (i @ js ''/api/v1/videos/'' @ v) s")
  note a1 = fetchAsync_adds [OF f1]
  show ?thesis
  proof (cases "s' = s1")
    case True
    with a1 show ?thesis by simp
  next
    case False
    with assms f1 obtain response data format where
      x: "x = Inr response" and d: "json_body response = Inr data"
      and pf: "pick_format (formatStreams data) = Some format"
      by (auto simp: try_instance_def split: sum.splits if_splits option.splits)
    obtain y s2 where f2: "fetchAsync env (stream_url format) s1 = (y, s2)"
      by (cases "fetchAsync env (stream_url format) s1")
    note a2 = adds_only_trans [OF a1 fetchAsync_adds [OF f2]]
    show ?thesis
    proof (cases "s' = s2")
      case True
      with a2 show ?thesis by simp
    next
      case False
      with assms f1 x d pf f2 \<open>s' \<noteq> s1\<close> obtain n b where "writeFileSync n b s2 = Inr s'"
        by (auto simp: try_instance_def split: sum.splits if_splits option.splits)
      from adds_only_trans [OF a2 writeFileSync_adds [OF this]] show ?thesis .
    qed
  qed
qed

lemma try_instances_adds:
  "try_instances env is v s = (r, s') \<Longrightarrow> adds_only from_fallback s s'"
proof (induction "is" arbitrary: s)
  case Nil
  then show ?case by (simp add: adds_only_refl)
next
  case (Cons i "is")
  obtain x s1 where t: "try_instance env i v s = (x, s1)" by (cases "try_instance env i v s")
  note a = try_instance_adds [OF t]
  show ?case
  proof (cases x)
    case (Some res)
    with t Cons.prems a show ?thesis by simp
  next
    case None
    with t Cons.prems have "try_instances env is v s1 = (r, s')" by simp
    from adds_only_trans [OF a Cons.IH [OF this]] show ?thesis .
  qed
qed

lemma downloadViaInvidious_adds:
  assumes "downloadViaInvidious env url s = (r, s')"
  shows "\<exists>evs. snd s' = snd s @ Called Invidious # evs \<and> list_all from_fallback evs"
proof (cases "extractVideoId url")
  case None
  with assms show ?thesis by (auto simp: downloadViaInvidious_def)
next
  case (Some v)
  with assms have "try_instances env instances v (ensure_downloads (fst s), snd s @ [Called Invidious]) = (r, s')"
    by (simp add: downloadViaInvidious_def)
  from try_instances_adds [OF this] show ?thesis by (auto simp: adds_only_def)
qed

section \<open>The fallback policy: claim\<close>

lemma not_invidious_primary: "list_all from_primary evs \<Longrightarrow> count_list evs (Called Invidious) = 0"
  by (auto simp: list_all_iff count_list_0_iff)

lemma not_invidious_fallback: "list_all from_fallback evs \<Longrightarrow> count_list evs (Called Invidious) = 0"
  by (auto simp: list_all_iff count_list_0_iff)

text \<open>
  Claim C2. When the primary path fails with the error \<open>e\<close>: if the message of \<open>e\<close>
  contains \<^verbatim>\<open>bot\<close>, \<^verbatim>\<open>Sign in to confirm\<close> or \<^verbatim>\<open>age\<close>, the request continues as the
  Fallback Provider, which is entered exactly once (one more \<open>Called Invidious\<close> in the
  events); otherwise the Fallback Provider is not entered and the request fails with
  \<open>e\<close> itself, in the state the primary path left.
\<close>

theorem fallback_policy:
  assumes "downloadViaYtDlp p env url s = (Inl e, s1)"
  shows "if includes_str (message e) (js ''bot'') \<or>
            includes_str (message e) (js ''Sign in to confirm'') \<or>
            includes_str (message e) (js ''age'')
         then downloadVideoForWeb p env url s = downloadViaInvidious env url s1 \<and>
              count_list (snd (snd (downloadVideoForWeb p env url s))) (Called Invidious) =
                count_list (snd s) (Called Invidious) + 1
         else downloadVideoForWeb p env url s = (Inl e, s1) \<and>
              count_list (snd s1) (Called Invidious) = count_list (snd s) (Called Invidious)"
proof -
  from downloadViaYtDlp_adds [OF assms] obtain evs where
    evs: "snd s1 = snd s @ evs" "list_all from_primary evs" by (auto simp: adds_only_def)
  then have c1: "count_list (snd s1) (Called Invidious) = count_list (snd s) (Called Invidious)"
    by (simp add: not_invidious_primary)
  obtain r s2 where inv: "downloadViaInvidious env url s1 = (r, s2)"
    by (cases "downloadViaInvidious env url s1")
  from downloadViaInvidious_adds [OF inv] obtain evs' where
    "snd s2 = snd s1 @ Called Invidious # evs'" "list_all from_fallback evs'" by blast
  then have c2: "count_list (snd s2) (Called Invidious) = count_list (snd s) (Called Invidious) + 1"
    using c1 by (simp add: not_invidious_fallback)
  show ?thesis using assms c1 c2 inv by (simp add: downloadVideoForWeb_def)
qed

theorem fallback_policy_witness:
  "downloadViaYtDlp False (env_blocked [1, 2, 3]) watch_url (world0, []) =
     (Inl (Error (js ''ERROR: Sign in to confirm you are not a bot'')),
      (world0, [Called YtDlp,
                Exec InfoQuery (infoCommand (js ''./yt-dlp'') watch_url) 30000
                  (Some (Error (js ''ERROR: Sign in to confirm you are not a bot'')))])) \<and>
   count_list (snd (snd (downloadVideoForWeb False (env_blocked [1, 2, 3]) watch_url (world0, []))))
     (Called Invidious) = 1 \<and>
   downloadVideoForWeb False env_unavailable watch_url (world0, []) =
     (Inl (Error (js ''ERROR: Video unavailable'')),
      (world0, [Called YtDlp,
                Exec InfoQuery (infoCommand (js ''./yt-dlp'') watch_url) 30000
                  (Some (Error (js ''ERROR: Video unavailable'')))]))"
proof -
  have a: "downloadViaYtDlp False (env_blocked [1, 2, 3]) watch_url (world0, []) =
     (Inl (Error (js ''ERROR: Sign in to confirm you are not a bot'')),
      (world0, [Called YtDlp,
                Exec InfoQuery (infoCommand (js ''./yt-dlp'') watch_url) 30000
                  (Some (Error (js ''ERROR: Sign in to confirm you are not a bot'')))]))"
    by code_simp
  have sig: "includes_str (js ''ERROR: Sign in to confirm you are not a bot'') (js ''bot'')"
    by code_simp
  have b: "downloadViaYtDlp False env_unavailable watch_url (world0, []) =
     (Inl (Error (js ''ERROR: Video unavailable'')),
      (world0, [Called YtDlp,
                Exec InfoQuery (infoCommand (js ''./yt-dlp'') watch_url) 30000
                  (Some (Error (js ''ERROR: Video unavailable'')))]))"
    by code_simp
  have nosig: "\<not> (includes_str (js ''ERROR: Video unavailable'') (js ''bot'') \<or>
            includes_str (js ''ERROR: Video unavailable'') (js ''Sign in to confirm'') \<or>
            includes_str (js ''ERROR: Video unavailable'') (js ''age''))"
    by code_simp
  have sig': "includes_str (message (Error (js ''ERROR: Sign in to confirm you are not a bot''))) (js ''bot'') \<or>
      includes_str (message (Error (js ''ERROR: Sign in to confirm you are not a bot''))) (js ''Sign in to confirm'') \<or>
      includes_str (message (Error (js ''ERROR: Sign in to confirm you are not a bot''))) (js ''age'')"
    using sig by simp
  from fallback_policy [OF a]
  have "count_list (snd (snd (downloadVideoForWeb False (env_blocked [1, 2, 3]) watch_url (world0, []))))
     (Called Invidious) = count_list (snd (world0, [])) (Called Invidious) + 1"
    unfolding if_P [OF sig'] by (rule conjunct2)
  then have c: "count_list (snd (snd (downloadVideoForWeb False (env_blocked [1, 2, 3]) watch_url (world0, []))))
     (Called Invidious) = 1" by simp
  from fallback_policy [OF b] nosig
  have d: "downloadVideoForWeb False env_unavailable watch_url (world0, []) =
     (Inl (Error (js ''ERROR: Video unavailable'')),
      (world0, [Called YtDlp,
                Exec InfoQuery (infoCommand (js ''./yt-dlp'') watch_url) 30000
                  (Some (Error (js ''ERROR: Video unavailable'')))]))" by simp
  from a c d show ?thesis by blast
qed

section \<open>External Downloader Invoker and metadata: claims\<close>


lemma fallback_not_attempt: "from_fallback ev \<Longrightarrow> \<not> is_attempt ev"
  by (cases ev rule: from_fallback.cases) auto







lemma invidious_no_attempt:
  assumes "downloadViaInvidious env url s = (r, s')"
  shows "adds_only (\<lambda>ev. \<not> is_attempt ev) s s'"
proof -
  from downloadViaInvidious_adds [OF assms] obtain evs where
    "snd s' = snd s @ Called Invidious # evs" "list_all from_fallback evs" by blast
  then show ?thesis
    by (intro adds_onlyI [where evs = "Called Invidious # evs"])
       (auto simp: list_all_iff dest: fallback_not_attempt)
qed

text \<open>
  Claim C6, as the code has it. If, once the downloader command is known, the metadata
  query fails or yields no parseable output (\<open>fetch_info\<close> ends with an error: the child
  process was rejected, \<^verbatim>\<open>JSON.parse\<close> threw, or the parsed value was falsy), the primary
  path fails with that error and has attempted no download strategy. The request then
  fails with the same error, unless the message of the error holds one of the fallback
  signatures: then the outcome of the request is the outcome of the Fallback Provider
  (which can succeed). In both cases no download strategy is attempted in the request.
\<close>

theorem metadata_failure_no_strategy:
  assumes det: "detect_ytdlp p env (Error msg_not_found)
                  (ensure_downloads (fst s), snd s @ [Called YtDlp]) = (Inr cmd, s1)"
    and inf: "fetch_info env cmd url (Error msg_no_info) s1 = (Inl e, s2)"
  shows "downloadViaYtDlp p env url s = (Inl e, s2) \<and>
         adds_only (\<lambda>ev. \<not> is_attempt ev) s s2 \<and>
         downloadVideoForWeb p env url s =
           (if includes_str (message e) (js ''Sign in to confirm'') \<or>
               includes_str (message e) (js ''bot'') \<or> includes_str (message e) (js ''age'')
            then downloadViaInvidious env url s2 else (Inl e, s2)) \<and>
         adds_only (\<lambda>ev. \<not> is_attempt ev) s (snd (downloadVideoForWeb p env url s))"
proof -
  have run: "downloadViaYtDlp p env url s = (Inl e, s2)"
    using det inf by (simp add: downloadViaYtDlp_def)
  have a: "adds_only (\<lambda>ev. \<not> is_attempt ev) s s2"
    using adds_only_trans [OF adds_only_trans [OF start_adds detect_primary [OF det]]
            fetch_info_primary [OF inf]]
    by (rule adds_only_mono) simp
  have web: "downloadVideoForWeb p env url s =
           (if includes_str (message e) (js ''Sign in to confirm'') \<or>
               includes_str (message e) (js ''bot'') \<or> includes_str (message e) (js ''age'')
            then downloadViaInvidious env url s2 else (Inl e, s2))"
    using run by (simp add: downloadVideoForWeb_def)
  have "adds_only (\<lambda>ev. \<not> is_attempt ev) s2 (snd (downloadViaInvidious env url s2))"
    by (rule invidious_no_attempt [of env url s2 "fst (downloadViaInvidious env url s2)"]) simp
  with a have "adds_only (\<lambda>ev. \<not> is_attempt ev) s (snd (downloadVideoForWeb p env url s))"
    using web by (auto intro: adds_only_trans)
  with run a web show ?thesis by blast
qed

text \<open>
  The metadata query is rejected with the bot-detection text, and the request succeeds
  through the Fallback Provider.
\<close>

theorem metadata_failure_counterexample:
  "fetch_info (env_blocked [1, 2, 3]) (js ''./yt-dlp'') watch_url (Error msg_no_info)
     (world0, [Called YtDlp]) =
     (Inl (Error (js ''ERROR: Sign in to confirm you are not a bot'')),
      (world0, [Called YtDlp,
                Exec InfoQuery (infoCommand (js ''./yt-dlp'') watch_url) 30000
                  (Some (Error (js ''ERROR: Sign in to confirm you are not a bot'')))])) \<and>
   map_sum id filename
     (fst (downloadVideoForWeb False (env_blocked [1, 2, 3]) watch_url (world0, []))) =
     Inr (js ''My Video.mp4'')"
  by code_simp

theorem metadata_failure_no_strategy_witness:
  "downloadViaYtDlp False env_unavailable watch_url (world0, []) =
     (Inl (Error (js ''ERROR: Video unavailable'')),
      (world0, [Called YtDlp,
                Exec InfoQuery (infoCommand (js ''./yt-dlp'') watch_url) 30000
                  (Some (Error (js ''ERROR: Video unavailable'')))])) \<and>
   adds_only (\<lambda>ev. \<not> is_attempt ev) (world0, [])
     (snd (downloadVideoForWeb False (env_blocked [1, 2, 3]) watch_url (world0, [])))"
proof -
  have d1: "detect_ytdlp False env_unavailable (Error msg_not_found)
      (ensure_downloads (fst (world0, [])), snd (world0, []) @ [Called YtDlp]) =
      (Inr (js ''./yt-dlp''), (world0, [Called YtDlp]))"
    by code_simp
  have i1: "fetch_info env_unavailable (js ''./yt-dlp'') watch_url (Error msg_no_info)
      (world0, [Called YtDlp]) =
      (Inl (Error (js ''ERROR: Video unavailable'')),
       (world0, [Called YtDlp,
                Exec InfoQuery (infoCommand (js ''./yt-dlp'') watch_url) 30000
                  (Some (Error (js ''ERROR: Video unavailable'')))]))"
    by code_simp
  have d2: "detect_ytdlp False (env_blocked [1, 2, 3]) (Error msg_not_found)
      (ensure_downloads (fst (world0, [])), snd (world0, []) @ [Called YtDlp]) =
      (Inr (js ''./yt-dlp''), (world0, [Called YtDlp]))"
    by code_simp
  have i2: "fetch_info (env_blocked [1, 2, 3]) (js ''./yt-dlp'') watch_url (Error msg_no_info)
      (world0, [Called YtDlp]) =
      (Inl (Error (js ''ERROR: Sign in to confirm you are not a bot'')),
       (world0, [Called YtDlp,
                Exec InfoQuery (infoCommand (js ''./yt-dlp'') watch_url) 30000
                  (Some (Error (js ''ERROR: Sign in to confirm you are not a bot'')))]))"
    by code_simp
  from metadata_failure_no_strategy [OF d1 i1] metadata_failure_no_strategy [OF d2 i2]
  show ?thesis by blast
qed

section \<open>File Locator: proofs\<close>








lemma fallback_returns_written:
  assumes "try_instance env i v s = (Some r, s')"
  shows "\<exists>title bytes s2. filename r = sanitizeFilename title @ js ''.mp4'' \<and>
           writeFileSync (filename r) bytes s2 = Inr s'"
  using assms
  by (auto simp: try_instance_def split: prod.splits sum.splits if_splits option.splits) blast+




section \<open>Request validation and the Retention Sweeper: claims\<close>

text \<open>
  Claim C7. A request whose URL does not match the pattern (or has no URL at all) is
  answered with status 400 and a validation message, and the state is returned as it was:
  no event is added, so no child process was spawned, no metadata query made, and no HTTP
  request sent to a fallback instance.
\<close>

theorem invalid_url_rejected:
  assumes "\<forall>u. body_url body = Some u \<longrightarrow> \<not> validateYouTubeUrl u"
  shows "post_download download env body s = ((failure 400 url_required, []), s) \<or>
         post_download download env body s = ((failure 400 url_invalid, []), s)"
proof (cases "body_url body")
  case None
  then show ?thesis by (simp add: post_download_def truthy_def)
next
  case (Some u)
  with assms have "\<not> validateYouTubeUrl u" by simp
  with Some show ?thesis by (simp add: post_download_def Let_def)
qed

theorem invalid_url_rejected_witness:
  "\<not> validateYouTubeUrl (js ''https://vimeo.com/watch?v=abcdefghijk'') \<and>
   validateYouTubeUrl watch_url \<and>
   post_download (downloadVideoForWeb True env_works) env_works
     \<lparr>body_url = Some (js ''https://vimeo.com/watch?v=abcdefghijk''), body_format = None\<rparr>
     (world0, []) = ((failure 400 url_invalid, []), (world0, []))"
proof -
  have a: "\<not> validateYouTubeUrl (js ''https://vimeo.com/watch?v=abcdefghijk'')" by code_simp
  have b: "validateYouTubeUrl watch_url" by code_simp
  have c: "failure 400 url_required \<noteq> failure 400 url_invalid" by code_simp
  have d: "post_download (downloadVideoForWeb True env_works) env_works
     \<lparr>body_url = Some (js ''https://vimeo.com/watch?v=abcdefghijk''), body_format = None\<rparr>
     (world0, []) \<noteq> ((failure 400 url_required, []), (world0, []))" by code_simp
  have "\<forall>u. body_url \<lparr>body_url = Some (js ''https://vimeo.com/watch?v=abcdefghijk''),
           body_format = None\<rparr> = Some u \<longrightarrow> \<not> validateYouTubeUrl u"
    using a by simp
  from invalid_url_rejected [OF this, of "downloadVideoForWeb True env_works" env_works "(world0, [])"] d
  have "post_download (downloadVideoForWeb True env_works) env_works
     \<lparr>body_url = Some (js ''https://vimeo.com/watch?v=abcdefghijk''), body_format = None\<rparr>
     (world0, []) = ((failure 400 url_invalid, []), (world0, []))" by blast
  with a b show ?thesis by blast
qed






section \<open>Error classification and the format field: claims\<close>




lemma valid_format_accepted:
  assumes "fmt \<in> {None, Some (js ''mp4''), Some (js ''webm''), Some (js ''mp3'')}"
  shows "(case fmt of None \<Rightarrow> js ''mp4'' | Some f \<Rightarrow> f) \<in> set [js ''mp4'', js ''webm'', js ''mp3'']"
  using assms by auto

lemma post_download_valid:
  assumes "validateYouTubeUrl url"
    and "fmt \<in> {None, Some (js ''mp4''), Some (js ''webm''), Some (js ''mp3'')}"
  shows "post_download download env \<lparr>body_url = Some url, body_format = fmt\<rparr> s =
           (case download url s of
              (Inr result, s') \<Rightarrow>
                (case encodeURIComponent env (filename result) of
                   Inr encoded \<Rightarrow>
                     ((\<lparr>status = 200, success = True, error_text = None,
                        message_text = Some download_done,
                        payload =
                          Some \<lparr>rd_filename = filename result,
                                rd_downloadUrl = js ''/download-file/'' @ encoded,
                                rd_videoInfo = videoInfo result\<rparr>\<rparr>,
                       [RequestLogged url (case fmt of None \<Rightarrow> js ''mp4'' | Some f \<Rightarrow> f),
                        DownloadCompleted url (case fmt of None \<Rightarrow> js ''mp4'' | Some f \<Rightarrow> f)
                          (filename result)]),
                      s')
                 | Inl downloadError \<Rightarrow>
                     ((failure 500 internal_error,
                       [RequestLogged url (case fmt of None \<Rightarrow> js ''mp4'' | Some f \<Rightarrow> f),
                        DownloadCompleted url (case fmt of None \<Rightarrow> js ''mp4'' | Some f \<Rightarrow> f)
                          (filename result),
                        DownloadFailed (message downloadError) url
                          (case fmt of None \<Rightarrow> js ''mp4'' | Some f \<Rightarrow> f)]),
                      s'))
            | (Inl downloadError, s') \<Rightarrow>
                ((failure 500 internal_error,
                  [RequestLogged url (case fmt of None \<Rightarrow> js ''mp4'' | Some f \<Rightarrow> f),
                   DownloadFailed (message downloadError) url
                     (case fmt of None \<Rightarrow> js ''mp4'' | Some f \<Rightarrow> f)]),
                 s'))"
proof -
  have u: "url \<noteq> []" using assms(1) by (auto simp: validateYouTubeUrl_def js_def)
  show ?thesis
    using assms(1) u valid_format_accepted [OF assms(2)]
    by (simp add: post_download_def Let_def truthy_def) blast
qed




text \<open>
  Claim C10. Two requests with the same URL field whose format fields are both accepted
  (\<^verbatim>\<open>mp4\<close>, \<^verbatim>\<open>webm\<close>, \<^verbatim>\<open>mp3\<close> or absent) get the same response, and leave the same state:
  the same files in the directory and the same events, so the same commands were run.
  \<open>downloadVideoForWeb\<close> takes the URL only; the format appears in the log entries and
  nowhere else.
\<close>

theorem format_has_no_influence:
  assumes "body_url b1 = body_url b2"
    and "body_format b1 \<in> {None, Some (js ''mp4''), Some (js ''webm''), Some (js ''mp3'')}"
    and "body_format b2 \<in> {None, Some (js ''mp4''), Some (js ''webm''), Some (js ''mp3'')}"
  shows "fst (fst (post_download (downloadVideoForWeb p env) env b1 s)) =
           fst (fst (post_download (downloadVideoForWeb p env) env b2 s)) \<and>
         snd (post_download (downloadVideoForWeb p env) env b1 s) =
           snd (post_download (downloadVideoForWeb p env) env b2 s)"
proof (cases "truthy (body_url b1) \<and> (\<forall>u. body_url b1 = Some u \<longrightarrow> validateYouTubeUrl u)")
  case False
  with assms(1) show ?thesis
    by (auto simp: post_download_def Let_def truthy_def split: option.splits)
next
  case True
  then obtain u where u: "body_url b1 = Some u" "validateYouTubeUrl u"
    by (auto simp: truthy_def split: option.splits)
  have b1: "b1 = \<lparr>body_url = Some u, body_format = body_format b1\<rparr>"
    using u(1) by (cases b1) simp
  have b2: "b2 = \<lparr>body_url = Some u, body_format = body_format b2\<rparr>"
    using u(1) assms(1) by (cases b2) simp
  note p1 = post_download_valid [OF u(2) assms(2), of "downloadVideoForWeb p env" env s]
  note p2 = post_download_valid [OF u(2) assms(3), of "downloadVideoForWeb p env" env s]
  have "fst (fst (post_download (downloadVideoForWeb p env) env
                    \<lparr>body_url = Some u, body_format = body_format b1\<rparr> s)) =
        fst (fst (post_download (downloadVideoForWeb p env) env
                    \<lparr>body_url = Some u, body_format = body_format b2\<rparr> s)) \<and>
        snd (post_download (downloadVideoForWeb p env) env
               \<lparr>body_url = Some u, body_format = body_format b1\<rparr> s) =
        snd (post_download (downloadVideoForWeb p env) env
               \<lparr>body_url = Some u, body_format = body_format b2\<rparr> s)"
    unfolding p1 p2 by (simp split: prod.splits sum.splits)
  with b1 b2 show ?thesis by metis
qed

theorem format_has_no_influence_witness:
  "fst (fst (post_download (downloadVideoForWeb False env_works) env_works
       \<lparr>body_url = Some watch_url, body_format = None\<rparr> (world0, []))) =
     \<lparr>status = 200, success = True, error_text = None, message_text = Some download_done,
      payload = Some \<lparr>rd_filename = js ''foo.mp4'', rd_downloadUrl = js ''/download-file/foo.mp4'',
                      rd_videoInfo = summary env_works sample_info (Some (js ''yt-dlp''))\<rparr>\<rparr> \<and>
   fst (fst (post_download (downloadVideoForWeb False env_works) env_works
       \<lparr>body_url = Some watch_url, body_format = Some (js ''mp3'')\<rparr> (world0, []))) =
     \<lparr>status = 200, success = True, error_text = None, message_text = Some download_done,
      payload = Some \<lparr>rd_filename = js ''foo.mp4'', rd_downloadUrl = js ''/download-file/foo.mp4'',
                      rd_videoInfo = summary env_works sample_info (Some (js ''yt-dlp''))\<rparr>\<rparr> \<and>
   snd (post_download (downloadVideoForWeb False env_works) env_works
       \<lparr>body_url = Some watch_url, body_format = Some (js ''mp3'')\<rparr> (world0, [])) = after_download \<and>
   snd (fst (post_download (downloadVideoForWeb False env_works) env_works
       \<lparr>body_url = Some watch_url, body_format = Some (js ''mp3'')\<rparr> (world0, []))) =
     [RequestLogged watch_url (js ''mp3''), DownloadCompleted watch_url (js ''mp3'') (js ''foo.mp4'')]"
proof -
  have a: "fst (fst (post_download (downloadVideoForWeb False env_works) env_works
       \<lparr>body_url = Some watch_url, body_format = None\<rparr> (world0, []))) =
     \<lparr>status = 200, success = True, error_text = None, message_text = Some download_done,
      payload = Some \<lparr>rd_filename = js ''foo.mp4'', rd_downloadUrl = js ''/download-file/foo.mp4'',
                      rd_videoInfo = summary env_works sample_info (Some (js ''yt-dlp''))\<rparr>\<rparr>"
    by code_simp
  have b: "snd (post_download (downloadVideoForWeb False env_works) env_works
       \<lparr>body_url = Some watch_url, body_format = None\<rparr> (world0, [])) = after_download"
    by code_simp
  have l: "snd (fst (post_download (downloadVideoForWeb False env_works) env_works
       \<lparr>body_url = Some watch_url, body_format = Some (js ''mp3'')\<rparr> (world0, []))) =
     [RequestLogged watch_url (js ''mp3''), DownloadCompleted watch_url (js ''mp3'') (js ''foo.mp4'')]"
    by code_simp
  have "body_url \<lparr>body_url = Some watch_url, body_format = None\<rparr> =
        body_url \<lparr>body_url = Some watch_url, body_format = Some (js ''mp3'')\<rparr>"
    and "body_format \<lparr>body_url = Some watch_url, body_format = None\<rparr> \<in>
        {None, Some (js ''mp4''), Some (js ''webm''), Some (js ''mp3'')}"
    and "body_format \<lparr>body_url = Some watch_url, body_format = Some (js ''mp3'')\<rparr> \<in>
        {None, Some (js ''mp4''), Some (js ''webm''), Some (js ''mp3'')}"
    by simp_all
  from format_has_no_influence [OF this, of False env_works "(world0, [])"] a b l
  show ?thesis by simp
qed

end
